theory Spec2Isabelle
  imports Complex_Main "HOL-Library.Sublist"
begin

unbundle bit_operations_syntax

section \<open>Python values and exceptions\<close>

text \<open>
  The exception classes that the modelled code can raise.  \<open>BalatroConnectionError\<close> is the
  repository's own class (client.py) and carries its message; \<open>GymnasiumError\<close> is the error
  that \<^verbatim>\<open>gymnasium.Env.reset\<close> raises on a negative seed; the others are Python built-ins.
\<close>

datatype py_error =
    ValueError
  | KeyError
  | TypeError
  | AttributeError
  | IndexError
  | BalatroConnectionError string
  | GymnasiumError

text \<open>
  The values of a \<^verbatim>\<open>dict[str, Any]\<close> as the bridge's JSON carries them: \<^verbatim>\<open>None\<close>, integers,
  strings and lists.  Strings are ASCII.
\<close>

datatype pyval =
    PNone
  | PInt int
  | PStr string
  | PList "pyval list"

type_synonym pydict = "string \<rightharpoonup> pyval"

text \<open>\<^verbatim>\<open>d.get(key, default)\<close>\<close>

definition dict_get :: "pydict \<Rightarrow> string \<Rightarrow> pyval \<Rightarrow> pyval" where
  "dict_get d k dflt = (case d k of None \<Rightarrow> dflt | Some v \<Rightarrow> v)"

text \<open>\<^verbatim>\<open>d[key]\<close>, which raises KeyError on a missing key.\<close>

definition getitem :: "(string \<rightharpoonup> 'v) \<Rightarrow> string \<Rightarrow> py_error + 'v" where
  "getitem d k = (case d k of None \<Rightarrow> Inl KeyError | Some v \<Rightarrow> Inr v)"

text \<open>Iterating a value (\<^verbatim>\<open>for x in v\<close>, \<^verbatim>\<open>list(v)\<close>): a string yields its characters.\<close>

fun py_iter :: "pyval \<Rightarrow> py_error + pyval list" where
  "py_iter (PList xs) = Inr xs"
| "py_iter (PStr s) = Inr (map (\<lambda>c. PStr [c]) s)"
| "py_iter _ = Inl TypeError"

text \<open>
  \<^verbatim>\<open>str.upper()\<close> on ASCII strings: a letter \<open>a..z\<close> (codes 97 to 122) loses bit 5, which
  subtracts 32 from its code; every other character stays.
\<close>

definition upper_char :: "char \<Rightarrow> char" where
  "upper_char c =
     (if 97 \<le> (of_char c :: nat) \<and> (of_char c :: nat) \<le> 122
      then (case c of Char b0 b1 b2 b3 b4 b5 b6 b7 \<Rightarrow> Char b0 b1 b2 b3 b4 False b6 b7)
      else c)"

definition upper :: "string \<Rightarrow> string" where
  "upper s = map upper_char s"

section \<open>schemas.py: actions\<close>

datatype ActionType =
    PLAY_HAND
  | DISCARD
  | SORT_HAND
  | SHOP_BUY
  | SHOP_REROLL
  | SHOP_SELL_JOKER
  | SHOP_END
  | SELECT_BLIND
  | SKIP_BLIND
  | SELECT_PACK_ITEM
  | SKIP_PACK

text \<open>\<^verbatim>\<open>ActionType.X.value\<close>\<close>

fun ActionType_value :: "ActionType \<Rightarrow> string" where
  "ActionType_value PLAY_HAND = ''PLAY_HAND''"
| "ActionType_value DISCARD = ''DISCARD''"
| "ActionType_value SORT_HAND = ''SORT_HAND''"
| "ActionType_value SHOP_BUY = ''SHOP_BUY''"
| "ActionType_value SHOP_REROLL = ''SHOP_REROLL''"
| "ActionType_value SHOP_SELL_JOKER = ''SHOP_SELL_JOKER''"
| "ActionType_value SHOP_END = ''SHOP_END''"
| "ActionType_value SELECT_BLIND = ''SELECT_BLIND''"
| "ActionType_value SKIP_BLIND = ''SKIP_BLIND''"
| "ActionType_value SELECT_PACK_ITEM = ''SELECT_PACK_ITEM''"
| "ActionType_value SKIP_PACK = ''SKIP_PACK''"

text \<open>
  The \<^verbatim>\<open>type\<close> attribute of an action: a member of the enum, or a raw string (the codec
  tests \<^verbatim>\<open>isinstance(action.type, ActionType)\<close> and accepts both).
\<close>

datatype type_field = Enum ActionType | Raw string

text \<open>\<^verbatim>\<open>action.type.value if isinstance(action.type, ActionType) else action.type\<close>\<close>

fun type_string :: "type_field \<Rightarrow> string" where
  "type_string (Enum t) = ActionType_value t"
| "type_string (Raw s) = s"

record ActionRequest =
  rtype :: type_field
  params :: pydict

section \<open>action\_space.py: ActionEncoder\<close>

definition MAX_HAND_SIZE :: int where "MAX_HAND_SIZE = 10"
definition MAX_JOKERS :: int where "MAX_JOKERS = 5"
definition MAX_SHOP_SLOTS :: int where "MAX_SHOP_SLOTS = 6"
definition MAX_PACK_CHOICES :: int where "MAX_PACK_CHOICES = 5"

subsection \<open>\_build\_action\_space\<close>

definition simple_actions :: "string \<rightharpoonup> int" where
  "simple_actions =
     [''SHOP_REROLL'' \<mapsto> 0,
      ''SHOP_END'' \<mapsto> 1,
      ''SKIP_BLIND'' \<mapsto> 2,
      ''SKIP_PACK'' \<mapsto> 3,
      ''SORT_HAND_RANK'' \<mapsto> 4,
      ''SORT_HAND_SUIT'' \<mapsto> 5]"

definition play_hand_offset :: int where
  "play_hand_offset = 10"

definition discard_offset :: int where
  "discard_offset = play_hand_offset + 1024"

definition shop_buy_offset :: int where
  "shop_buy_offset = discard_offset + 1024"

definition sell_joker_offset :: int where
  "sell_joker_offset = shop_buy_offset + MAX_SHOP_SLOTS"

definition pack_select_offset :: int where
  "pack_select_offset = sell_joker_offset + MAX_JOKERS"

definition blind_select_offset :: int where
  "blind_select_offset = pack_select_offset + MAX_PACK_CHOICES"

definition action_space_size :: int where
  "action_space_size = blind_select_offset + 3"

definition get_action_space_size :: int where
  "get_action_space_size = action_space_size"

subsection \<open>Bitmaps\<close>

text \<open>
  \<^verbatim>\<open>card_indices_to_bitmap\<close>: the loop over \<^verbatim>\<open>indices\<close>, with the bitmap as accumulator.
  Comparing a non-integer with \<^verbatim>\<open>1\<close> raises TypeError.
\<close>

fun card_indices_loop :: "pyval list \<Rightarrow> int \<Rightarrow> py_error + int" where
  "card_indices_loop [] bitmap = Inr bitmap"
| "card_indices_loop (PInt idx # rest) bitmap =
     card_indices_loop rest
       (if 1 \<le> idx \<and> idx \<le> MAX_HAND_SIZE then bitmap OR push_bit (nat (idx - 1)) 1
        else bitmap)"
| "card_indices_loop (_ # rest) bitmap = Inl TypeError"

definition card_indices_to_bitmap :: "pyval \<Rightarrow> py_error + int" where
  "card_indices_to_bitmap indices =
     (case py_iter indices of
        Inl e \<Rightarrow> Inl e
      | Inr xs \<Rightarrow> card_indices_loop xs 0)"

text \<open>\<^verbatim>\<open>bitmap_to_card_indices\<close>: positions \<open>i + 1\<close> for the set bits \<open>i\<close> in \<open>range(10)\<close>.\<close>

definition bitmap_to_card_indices :: "int \<Rightarrow> int list" where
  "bitmap_to_card_indices bitmap =
     map (\<lambda>i. int i + 1)
       (filter (\<lambda>i. bitmap AND push_bit i 1 \<noteq> 0) [0..<nat MAX_HAND_SIZE])"

subsection \<open>encode\_action\<close>

text \<open>\<^verbatim>\<open>offset + v - 1\<close> for a parameter value \<open>v\<close>: only integers can be added.\<close>

fun offset_plus :: "int \<Rightarrow> pyval \<Rightarrow> py_error + int" where
  "offset_plus off (PInt v) = Inr (off + v - 1)"
| "offset_plus off _ = Inl TypeError"

text \<open>
  \<^verbatim>\<open>options.get(option, 0)\<close> with \<^verbatim>\<open>options = {"small": 0, "big": 1, "boss": 2}\<close>: a list is
  unhashable, any other value that is not a key gives the default.
\<close>

fun blind_option_index :: "pyval \<Rightarrow> py_error + int" where
  "blind_option_index (PStr s) =
     Inr (if s = ''small'' then 0 else if s = ''big'' then 1 else if s = ''boss'' then 2 else 0)"
| "blind_option_index (PList xs) = Inl TypeError"
| "blind_option_index _ = Inr 0"

definition encode_action :: "ActionRequest \<Rightarrow> py_error + int" where
  "encode_action action =
     (let action_type = type_string (rtype action) in
      if action_type = ''SHOP_REROLL'' then getitem simple_actions ''SHOP_REROLL''
      else if action_type = ''SHOP_END'' then getitem simple_actions ''SHOP_END''
      else if action_type = ''SKIP_BLIND'' then getitem simple_actions ''SKIP_BLIND''
      else if action_type = ''SKIP_PACK'' then getitem simple_actions ''SKIP_PACK''
      else if action_type = ''SORT_HAND'' then
        (case dict_get (params action) ''mode'' (PStr ''rank'') of
           PStr mode \<Rightarrow> getitem simple_actions (''SORT_HAND_'' @ upper mode)
         | _ \<Rightarrow> Inl AttributeError)
      else if action_type = ''PLAY_HAND'' then
        (case card_indices_to_bitmap (dict_get (params action) ''card_indices'' (PList [])) of
           Inl e \<Rightarrow> Inl e
         | Inr bitmap \<Rightarrow> Inr (play_hand_offset + bitmap))
      else if action_type = ''DISCARD'' then
        (case card_indices_to_bitmap (dict_get (params action) ''card_indices'' (PList [])) of
           Inl e \<Rightarrow> Inl e
         | Inr bitmap \<Rightarrow> Inr (discard_offset + bitmap))
      else if action_type = ''SHOP_BUY'' then
        offset_plus shop_buy_offset (dict_get (params action) ''slot'' (PInt 1))
      else if action_type = ''SHOP_SELL_JOKER'' then
        offset_plus sell_joker_offset (dict_get (params action) ''joker_index'' (PInt 1))
      else if action_type = ''SELECT_PACK_ITEM'' then
        offset_plus pack_select_offset (dict_get (params action) ''choice_index'' (PInt 1))
      else if action_type = ''SELECT_BLIND'' then
        (case blind_option_index (dict_get (params action) ''option'' (PStr ''small'')) of
           Inl e \<Rightarrow> Inl e
         | Inr k \<Rightarrow> Inr (blind_select_offset + k))
      else Inl ValueError)"

subsection \<open>decode\_action\<close>

definition request :: "ActionType \<Rightarrow> pydict \<Rightarrow> ActionRequest" where
  "request t ps = \<lparr>rtype = Enum t, params = ps\<rparr>"

definition blind_options :: "string list" where
  "blind_options = [''small'', ''big'', ''boss'']"

definition decode_action :: "int \<Rightarrow> py_error + ActionRequest" where
  "decode_action action_idx =
     (if Some action_idx = simple_actions ''SHOP_REROLL'' then Inr (request SHOP_REROLL Map.empty)
      else if Some action_idx = simple_actions ''SHOP_END'' then Inr (request SHOP_END Map.empty)
      else if Some action_idx = simple_actions ''SKIP_BLIND'' then Inr (request SKIP_BLIND Map.empty)
      else if Some action_idx = simple_actions ''SKIP_PACK'' then Inr (request SKIP_PACK Map.empty)
      else if Some action_idx = simple_actions ''SORT_HAND_RANK'' then
        Inr (request SORT_HAND [''mode'' \<mapsto> PStr ''rank''])
      else if Some action_idx = simple_actions ''SORT_HAND_SUIT'' then
        Inr (request SORT_HAND [''mode'' \<mapsto> PStr ''suit''])
      else if play_hand_offset \<le> action_idx \<and> action_idx < discard_offset then
        (let bitmap = action_idx - play_hand_offset;
             indices = bitmap_to_card_indices bitmap
         in Inr (request PLAY_HAND [''card_indices'' \<mapsto> PList (map PInt indices)]))
      else if discard_offset \<le> action_idx \<and> action_idx < shop_buy_offset then
        (let bitmap = action_idx - discard_offset;
             indices = bitmap_to_card_indices bitmap
         in Inr (request DISCARD [''card_indices'' \<mapsto> PList (map PInt indices)]))
      else if shop_buy_offset \<le> action_idx \<and> action_idx < sell_joker_offset then
        (let slot = action_idx - shop_buy_offset + 1
         in Inr (request SHOP_BUY [''slot'' \<mapsto> PInt slot]))
      else if sell_joker_offset \<le> action_idx \<and> action_idx < pack_select_offset then
        (let joker_idx = action_idx - sell_joker_offset + 1
         in Inr (request SHOP_SELL_JOKER [''joker_index'' \<mapsto> PInt joker_idx]))
      else if pack_select_offset \<le> action_idx \<and> action_idx < blind_select_offset then
        (let choice_idx = action_idx - pack_select_offset + 1
         in Inr (request SELECT_PACK_ITEM [''choice_index'' \<mapsto> PInt choice_idx]))
      else if blind_select_offset \<le> action_idx \<and> action_idx < action_space_size then
        (let option_idx = action_idx - blind_select_offset
         in Inr (request SELECT_BLIND [''option'' \<mapsto> PStr (blind_options ! nat option_idx)]))
      else Inl ValueError)"

section \<open>schemas.py: legal actions\<close>

text \<open>
  \<^verbatim>\<open>ActionParams\<close>, with the fields that the encoder reads.  \<^verbatim>\<open>card_indices\<close> is an optional
  \<^verbatim>\<open>dict[str, Any]\<close>; the others are optional integers.
\<close>

record ActionParams =
  card_indices :: "pydict option"
  slot :: "int option"
  joker_index :: "int option"
  choice_index :: "int option"

record LegalAction =
  ltype :: type_field
  description :: string
  lparams :: ActionParams

record LegalActions =
  actions :: "LegalAction list"

section \<open>action\_space.py: get\_legal\_action\_mask\<close>

text \<open>Sequencing of two steps where the first may raise.\<close>

definition seq :: "py_error + 'a \<Rightarrow> ('a \<Rightarrow> py_error + 'b) \<Rightarrow> py_error + 'b" where
  "seq m f = (case m of Inl e \<Rightarrow> Inl e | Inr x \<Rightarrow> f x)"

text \<open>
  \<^verbatim>\<open>mask[i] = True\<close> on a Python list: a negative index counts from the end, an index out of
  range raises IndexError.
\<close>

definition set_true :: "bool list \<Rightarrow> int \<Rightarrow> py_error + bool list" where
  "set_true msk i =
     (let n = int (length msk) in
      if 0 \<le> i \<and> i < n then Inr (msk[nat i := True])
      else if - n \<le> i \<and> i < 0 then Inr (msk[nat (n + i) := True])
      else Inl IndexError)"

text \<open>\<^verbatim>\<open>mask[self.simple_actions[key]] = True\<close>\<close>

definition mark_simple :: "string \<Rightarrow> bool list \<Rightarrow> py_error + bool list" where
  "mark_simple key msk = seq (getitem simple_actions key) (set_true msk)"

text \<open>\<^verbatim>\<open>len(v)\<close>\<close>

fun py_len :: "pyval \<Rightarrow> py_error + int" where
  "py_len (PList xs) = Inr (int (length xs))"
| "py_len (PStr s) = Inr (int (length s))"
| "py_len _ = Inl TypeError"

text \<open>
  \<^verbatim>\<open>itertools.combinations(pool, r)\<close> for \<open>r \<ge> 0\<close>: the \<open>r\<close>-element subsequences of the pool by
  position, in lexicographic order of the positions.
\<close>

fun combinations :: "'a list \<Rightarrow> nat \<Rightarrow> 'a list list" where
  "combinations xs 0 = [[]]"
| "combinations [] (Suc r) = []"
| "combinations (x # xs) (Suc r) = map ((#) x) (combinations xs r) @ combinations xs (Suc r)"

text \<open>
  The inner loop \<^verbatim>\<open>for combo in combinations(available, size)\<close>: the bitmap of the
  combination, then the mark at \<^verbatim>\<open>offset + bitmap\<close>.
\<close>

fun mark_combos :: "int \<Rightarrow> pyval list list \<Rightarrow> bool list \<Rightarrow> py_error + bool list" where
  "mark_combos off [] msk = Inr msk"
| "mark_combos off (combo # rest) msk =
     seq (card_indices_to_bitmap (PList combo)) (\<lambda>bitmap.
     seq (set_true msk (off + bitmap)) (\<lambda>msk'.
     mark_combos off rest msk'))"

text \<open>
  The outer loop \<^verbatim>\<open>for size in range(min_select, min(max_select, len(available)) + 1)\<close>;
  \<^verbatim>\<open>combinations\<close> raises ValueError on a negative size.
\<close>

fun mark_sizes :: "int \<Rightarrow> pyval list \<Rightarrow> int list \<Rightarrow> bool list \<Rightarrow> py_error + bool list" where
  "mark_sizes off pool [] msk = Inr msk"
| "mark_sizes off pool (sz # rest) msk =
     (if sz < 0 then Inl ValueError
      else seq (mark_combos off (combinations pool (nat sz)) msk) (\<lambda>msk'.
           mark_sizes off pool rest msk'))"

text \<open>
  The body shared by the PLAY\_HAND and DISCARD branches, for a truthy
  \<^verbatim>\<open>params.card_indices\<close>.  \<^verbatim>\<open>min\<close> and \<^verbatim>\<open>range\<close> raise TypeError on a bound that is not an
  integer.
\<close>

definition mark_card_selections ::
  "int \<Rightarrow> pydict \<Rightarrow> int \<Rightarrow> bool list \<Rightarrow> py_error + bool list" where
  "mark_card_selections off ci hand_size msk =
     (let available = dict_get ci ''available'' (PList (map PInt [1..hand_size]));
          min_select = dict_get ci ''min_select'' (PInt 1);
          max_select = dict_get ci ''max_select'' (PInt 5)
      in seq (py_len available) (\<lambda>n.
         case (min_select, max_select) of
           (PInt lo, PInt hi) \<Rightarrow>
             seq (py_iter available) (\<lambda>pool. mark_sizes off pool [lo..min hi n] msk)
         | _ \<Rightarrow> Inl TypeError))"

text \<open>\<^verbatim>\<open>if params and params.card_indices\<close>: a dict is truthy when it is not empty.\<close>

definition mark_selection_action ::
  "int \<Rightarrow> ActionParams \<Rightarrow> int \<Rightarrow> bool list \<Rightarrow> py_error + bool list" where
  "mark_selection_action off ps hand_size msk =
     (case card_indices ps of
        None \<Rightarrow> Inr msk
      | Some ci \<Rightarrow> if ci = Map.empty then Inr msk
                   else mark_card_selections off ci hand_size msk)"

text \<open>
  \<^verbatim>\<open>if params and params.slot: if 1 <= slot <= bound: mask[offset + slot - 1] = True\<close>, the
  shape of the SHOP\_BUY, SHOP\_SELL\_JOKER and SELECT\_PACK\_ITEM branches.  An integer is
  truthy when it is not zero.
\<close>

definition mark_slot :: "int \<Rightarrow> int \<Rightarrow> int option \<Rightarrow> bool list \<Rightarrow> py_error + bool list" where
  "mark_slot off bound v msk =
     (case v of
        None \<Rightarrow> Inr msk
      | Some k \<Rightarrow> if k = 0 then Inr msk
                  else if 1 \<le> k \<and> k \<le> bound then set_true msk (off + k - 1)
                  else Inr msk)"

text \<open>The body of \<^verbatim>\<open>for action in legal_actions.actions\<close>.\<close>

definition mask_action :: "int \<Rightarrow> LegalAction \<Rightarrow> bool list \<Rightarrow> py_error + bool list" where
  "mask_action hand_size action msk =
     (let action_type = type_string (ltype action) in
      if action_type = ''SHOP_REROLL'' then mark_simple ''SHOP_REROLL'' msk
      else if action_type = ''SHOP_END'' then mark_simple ''SHOP_END'' msk
      else if action_type = ''SKIP_BLIND'' then mark_simple ''SKIP_BLIND'' msk
      else if action_type = ''SKIP_PACK'' then mark_simple ''SKIP_PACK'' msk
      else if action_type = ''SORT_HAND'' then
        seq (mark_simple ''SORT_HAND_RANK'' msk) (mark_simple ''SORT_HAND_SUIT'')
      else if action_type = ''PLAY_HAND'' then
        mark_selection_action play_hand_offset (lparams action) hand_size msk
      else if action_type = ''DISCARD'' then
        mark_selection_action discard_offset (lparams action) hand_size msk
      else if action_type = ''SHOP_BUY'' then
        mark_slot shop_buy_offset MAX_SHOP_SLOTS (slot (lparams action)) msk
      else if action_type = ''SHOP_SELL_JOKER'' then
        mark_slot sell_joker_offset MAX_JOKERS (joker_index (lparams action)) msk
      else if action_type = ''SELECT_PACK_ITEM'' then
        mark_slot pack_select_offset MAX_PACK_CHOICES (choice_index (lparams action)) msk
      else if action_type = ''SELECT_BLIND'' then
        seq (set_true msk (blind_select_offset + 0)) (\<lambda>mask1.
        seq (set_true mask1 (blind_select_offset + 1)) (\<lambda>mask2.
        set_true mask2 (blind_select_offset + 2)))
      else Inr msk)"

fun mask_loop :: "int \<Rightarrow> LegalAction list \<Rightarrow> bool list \<Rightarrow> py_error + bool list" where
  "mask_loop hand_size [] msk = Inr msk"
| "mask_loop hand_size (action # rest) msk =
     seq (mask_action hand_size action msk) (mask_loop hand_size rest)"

definition get_legal_action_mask :: "LegalActions \<Rightarrow> int \<Rightarrow> py_error + bool list" where
  "get_legal_action_mask legal_actions hand_size =
     mask_loop hand_size (actions legal_actions) (replicate (nat action_space_size) False)"

section \<open>schemas.py: game state\<close>

datatype GamePhase =
    MENU
  | SPLASH
  | SELECTING_HAND
  | HAND_PLAYED
  | DRAW_TO_HAND
  | BLIND_SELECT
  | SHOP
  | PACK_OPENING
  | UNKNOWN

fun GamePhase_value :: "GamePhase \<Rightarrow> string" where
  "GamePhase_value MENU = ''MENU''"
| "GamePhase_value SPLASH = ''SPLASH''"
| "GamePhase_value SELECTING_HAND = ''SELECTING_HAND''"
| "GamePhase_value HAND_PLAYED = ''HAND_PLAYED''"
| "GamePhase_value DRAW_TO_HAND = ''DRAW_TO_HAND''"
| "GamePhase_value BLIND_SELECT = ''BLIND_SELECT''"
| "GamePhase_value SHOP = ''SHOP''"
| "GamePhase_value PACK_OPENING = ''PACK_OPENING''"
| "GamePhase_value UNKNOWN = ''UNKNOWN''"

text \<open>
  The records below carry the fields that the tokenizer and the environment read, with the
  types the schema declares (\<^verbatim>\<open>Optional[T]\<close> is \<open>T option\<close>).  Where two classes share a
  field name, the field is prefixed with its class.  \<^verbatim>\<open>CardData.rank\<close> is coerced to a string
  by the schema's validator.
\<close>

record CardData =
  rank :: "string option"
  suit :: "string option"
  edition :: "string option"
  enhancement :: "string option"
  seal :: "string option"
  debuffed :: bool
  highlighted :: bool
  hand_index :: "int option"

record JokerData =
  joker_name :: "string option"
  joker_key :: "string option"
  rarity :: "int option"
  sell_cost :: int
  ability :: "pydict option"

record ConsumableData =
  cons_name :: "string option"
  cons_key :: "string option"

record BlindData =
  blind_name :: "string option"
  chips_needed :: "int option"
  chips_scored :: int
  boss :: bool

record ShopItem =
  item_cost :: int
  item_type :: string

record ShopData =
  items :: "ShopItem list"
  reroll_cost :: int

record DeckCounts =
  deck_size :: int
  discard_size :: int

record GameState =
  phase :: GamePhase
  error :: "string option"
  round_num :: int
  ante :: int
  money :: int
  hands_remaining :: int
  discards_remaining :: int
  blind :: "BlindData option"
  hand :: "CardData list"
  jokers :: "JokerData list"
  consumables :: "ConsumableData list"
  shop :: "ShopData option"
  deck_counts :: DeckCounts

record ActionResult =
  result_ok :: bool
  result_error :: "string option"
  result_state :: "GameState option"
  result_legal :: "LegalActions option"

section \<open>obs\_tokenizer.py: ObservationTokenizer\<close>

text \<open>
  The Python built-ins that the tokenizer calls, as parameters: \<^verbatim>\<open>hash\<close> on strings (fixed
  within one process) and \<^verbatim>\<open>int\<close> on strings (\<open>None\<close> where it raises ValueError).  Python
  floats are modelled as reals: the rounding to doubles, and the OverflowError of a
  division of an integer beyond the range of the doubles, are not part of the model.
\<close>

record Runtime =
  py_hash :: "string \<Rightarrow> int"
  py_int :: "string \<Rightarrow> int option"

definition VOCAB_enhancement :: int where "VOCAB_enhancement = 15"
definition VOCAB_joker :: int where "VOCAB_joker = 200"
definition VOCAB_consumable :: int where "VOCAB_consumable = 100"

definition RANK_MAP :: "string \<rightharpoonup> int" where
  "RANK_MAP =
     [''2'' \<mapsto> 2, ''3'' \<mapsto> 3, ''4'' \<mapsto> 4, ''5'' \<mapsto> 5, ''6'' \<mapsto> 6, ''7'' \<mapsto> 7, ''8'' \<mapsto> 8,
      ''9'' \<mapsto> 9, ''10'' \<mapsto> 10,
      ''Jack'' \<mapsto> 11, ''Queen'' \<mapsto> 12, ''King'' \<mapsto> 13, ''Ace'' \<mapsto> 14,
      ''J'' \<mapsto> 11, ''Q'' \<mapsto> 12, ''K'' \<mapsto> 13, ''A'' \<mapsto> 14]"

definition SUIT_MAP :: "string \<rightharpoonup> int" where
  "SUIT_MAP = [''Hearts'' \<mapsto> 1, ''Diamonds'' \<mapsto> 2, ''Clubs'' \<mapsto> 3, ''Spades'' \<mapsto> 4]"

definition EDITION_MAP :: "string \<rightharpoonup> int" where
  "EDITION_MAP = [''foil'' \<mapsto> 1, ''holo'' \<mapsto> 2, ''polychrome'' \<mapsto> 3, ''negative'' \<mapsto> 4]"

definition seal_map :: "string \<rightharpoonup> int" where
  "seal_map = [''Gold'' \<mapsto> 1, ''Red'' \<mapsto> 2, ''Blue'' \<mapsto> 3, ''Purple'' \<mapsto> 4]"

definition PHASE_MAP :: "GamePhase \<rightharpoonup> int" where
  "PHASE_MAP =
     [MENU \<mapsto> 0, SPLASH \<mapsto> 1, SELECTING_HAND \<mapsto> 2, HAND_PLAYED \<mapsto> 3, DRAW_TO_HAND \<mapsto> 4,
      BLIND_SELECT \<mapsto> 5, SHOP \<mapsto> 6, PACK_OPENING \<mapsto> 7, UNKNOWN \<mapsto> 8]"

definition TOK_MAX_HAND_SIZE :: nat where "TOK_MAX_HAND_SIZE = 10"
definition TOK_MAX_JOKERS :: nat where "TOK_MAX_JOKERS = 5"
definition MAX_CONSUMABLES :: nat where "MAX_CONSUMABLES = 4"
definition MAX_SHOP_ITEMS :: nat where "MAX_SHOP_ITEMS = 6"

subsection \<open>\_build\_embedding\_dims\<close>

definition card_features :: nat where "card_features = 8"

definition obs_size :: nat where
  "obs_size =
     10 + TOK_MAX_HAND_SIZE * card_features + TOK_MAX_JOKERS * 4 + MAX_CONSUMABLES * 2
       + MAX_SHOP_ITEMS * 3"

definition get_observation_size :: nat where
  "get_observation_size = obs_size"

text \<open>\<^verbatim>\<open>m.get(key, default)\<close> on the lookup tables.\<close>

definition map_get :: "('k \<rightharpoonup> 'v) \<Rightarrow> 'k \<Rightarrow> 'v \<Rightarrow> 'v" where
  "map_get m k dflt = (case m k of None \<Rightarrow> dflt | Some v \<Rightarrow> v)"

text \<open>Truthiness of an optional string: neither \<^verbatim>\<open>None\<close> nor empty.\<close>

fun truthy_str :: "string option \<Rightarrow> bool" where
  "truthy_str None = False"
| "truthy_str (Some s) = (s \<noteq> [])"

text \<open>\<^verbatim>\<open>x or y\<close> on optional strings with a string fallback.\<close>

definition str_or :: "string option \<Rightarrow> string \<Rightarrow> string" where
  "str_or x y = (if truthy_str x then the x else y)"

subsection \<open>tokenize\_card\<close>

definition card_rank :: "Runtime \<Rightarrow> CardData \<Rightarrow> int" where
  "card_rank rt crd =
     (if truthy_str (rank crd) then
        (let r = map_get RANK_MAP (the (rank crd)) 0 in
         if r = 0 then (case py_int rt (the (rank crd)) of Some n \<Rightarrow> n | None \<Rightarrow> 0)
         else r)
      else 0)"

definition tokenize_card :: "Runtime \<Rightarrow> CardData \<Rightarrow> real list" where
  "tokenize_card rt crd =
     (let rnk = card_rank rt crd;
          sut = (if truthy_str (suit crd) then map_get SUIT_MAP (the (suit crd)) 0 else 0);
          edn = (if truthy_str (edition crd) then map_get EDITION_MAP (the (edition crd)) 0
                 else 0);
          enh = (if truthy_str (enhancement crd)
                 then py_hash rt (str_or (enhancement crd) []) mod VOCAB_enhancement else 0);
          sl = (if truthy_str (seal crd) then map_get seal_map (the (seal crd)) 0 else 0)
      in [real_of_int rnk / 14,
          real_of_int sut / 4,
          real_of_int edn / 4,
          real_of_int enh / real_of_int VOCAB_enhancement,
          real_of_int sl / 4,
          (if debuffed crd then 1 else 0),
          (if highlighted crd then 1 else 0),
          real_of_int (case hand_index crd of None \<Rightarrow> 0 | Some k \<Rightarrow> if k = 0 then 0 else k)
            / real TOK_MAX_HAND_SIZE])"

subsection \<open>tokenize\_joker\<close>

definition tokenize_joker :: "Runtime \<Rightarrow> JokerData \<Rightarrow> real list" where
  "tokenize_joker rt joker =
     (let joker_id = py_hash rt (str_or (joker_key joker) (str_or (joker_name joker) []))
                       mod VOCAB_joker
      in [real_of_int joker_id / real_of_int VOCAB_joker,
          real_of_int (case rarity joker of None \<Rightarrow> 1 | Some k \<Rightarrow> if k = 0 then 1 else k) / 4,
          real_of_int (sell_cost joker) / 20,
          (case ability joker of
             None \<Rightarrow> 0
           | Some d \<Rightarrow> if d = Map.empty then 0 else 1)])"

subsection \<open>tokenize\_state\<close>

text \<open>\<^verbatim>\<open>math.log10(max(chips, 1)) / 12.0\<close>; \<^verbatim>\<open>max\<close> raises TypeError on \<^verbatim>\<open>None\<close>.\<close>

definition log_chips :: "int option \<Rightarrow> py_error + real" where
  "log_chips chips =
     (case chips of
        None \<Rightarrow> Inl TypeError
      | Some c \<Rightarrow> Inr (log 10 (real_of_int (max c 1)) / 12))"

definition scalar_features :: "GameState \<Rightarrow> py_error + real list" where
  "scalar_features st =
     (let chips_needed_v = (case blind st of Some b \<Rightarrow> chips_needed b | None \<Rightarrow> Some 0);
          chips_scored_v = (case blind st of Some b \<Rightarrow> chips_scored b | None \<Rightarrow> 0)
      in seq (log_chips chips_needed_v) (\<lambda>f_needed.
         seq (log_chips (Some chips_scored_v)) (\<lambda>f_scored.
         Inr [real_of_int (map_get PHASE_MAP (phase st) 8) / 10,
              real_of_int (min (money st) 500) / 500,
              real_of_int (ante st) / 8,
              real_of_int (round_num st) / 32,
              real_of_int (hands_remaining st) / 5,
              real_of_int (discards_remaining st) / 5,
              f_needed,
              f_scored,
              real_of_int (deck_size (deck_counts st)) / 52,
              real_of_int (discard_size (deck_counts st)) / 52])))"

text \<open>
  The four padding iterations \<^verbatim>\<open>for i in range(MAX): if i < len(xs): ... else: zeros\<close>, with the
  block of an item given by \<open>f\<close> and the width of a zero block by \<open>w\<close>.
\<close>

definition padded_blocks :: "nat \<Rightarrow> nat \<Rightarrow> ('a \<Rightarrow> real list) \<Rightarrow> 'a list \<Rightarrow> real list" where
  "padded_blocks n w f xs =
     concat (map (\<lambda>i. if i < length xs then f (xs ! i) else replicate w 0) [0..<n])"

definition tokenize_consumable :: "Runtime \<Rightarrow> ConsumableData \<Rightarrow> real list" where
  "tokenize_consumable rt cons =
     (let cons_id = py_hash rt (str_or (cons_key cons) (str_or (cons_name cons) []))
                      mod VOCAB_consumable
      in [real_of_int cons_id / real_of_int VOCAB_consumable, 1])"

definition tokenize_shop_item :: "Runtime \<Rightarrow> int \<Rightarrow> ShopItem \<Rightarrow> real list" where
  "tokenize_shop_item rt mny item =
     (let type_hash = py_hash rt (item_type item) mod 10
      in [real_of_int type_hash / 10,
          real_of_int (item_cost item) / 50,
          (if item_cost item \<le> mny then 1 else 0)])"

definition tokenize_state :: "Runtime \<Rightarrow> GameState \<Rightarrow> py_error + real list" where
  "tokenize_state rt st =
     seq (scalar_features st) (\<lambda>features.
       (let shop_items = (case shop st of Some sh \<Rightarrow> items sh | None \<Rightarrow> [])
        in Inr (features
                @ padded_blocks TOK_MAX_HAND_SIZE card_features (tokenize_card rt) (hand st)
                @ padded_blocks TOK_MAX_JOKERS 4 (tokenize_joker rt) (jokers st)
                @ padded_blocks MAX_CONSUMABLES 2 (tokenize_consumable rt) (consumables st)
                @ padded_blocks MAX_SHOP_ITEMS 3 (tokenize_shop_item rt (money st)) shop_items)))"

section \<open>env.py: BalatroEnv\<close>

text \<open>
  The episode state of the environment (the attributes that \<^verbatim>\<open>reset\<close> and \<^verbatim>\<open>step\<close> read and
  write) together with the configured \<^verbatim>\<open>max_steps\<close>.
\<close>

record Env =
  current_state :: "GameState option"
  current_legal :: "LegalActions option"
  step_count :: int
  episode_reward :: real
  prev_money :: int
  prev_chips :: int
  connected :: bool
  max_steps :: int

text \<open>
  The bridge as one \<^verbatim>\<open>reset\<close> or \<^verbatim>\<open>step\<close> call sees it: the outcome of each client method,
  an exception or a value.  \<^verbatim>\<open>client.reset\<close> receives the seed, or \<^verbatim>\<open>None\<close> for a falsy seed.
\<close>

record Bridge =
  client_reset :: "int option \<Rightarrow> py_error + GameState \<times> LegalActions"
  execute_action :: "ActionRequest \<Rightarrow> py_error + ActionResult"
  get_state :: "py_error + GameState"
  get_legal_actions :: "py_error + LegalActions"

text \<open>The values of the \<^verbatim>\<open>info\<close> dictionary.\<close>

datatype info_value =
    INone
  | IInt int
  | IFloat real
  | IBool bool
  | IStr string
  | IMask "bool list"

type_synonym info_dict = "string \<rightharpoonup> info_value"

subsection \<open>\_\_init\_\_\<close>

definition action_space_n :: int where
  "action_space_n = get_action_space_size"

text \<open>
  The episode state after \<^verbatim>\<open>__init__\<close> has returned: with \<^verbatim>\<open>wait_for_connection\<close> the
  constructor either raises or sets \<^verbatim>\<open>_connected\<close>.
\<close>

definition init_env :: "int \<Rightarrow> bool \<Rightarrow> Env" where
  "init_env max_steps_arg wait_for_connection =
     \<lparr>current_state = None, current_legal = None, step_count = 0, episode_reward = 0,
       prev_money = 0, prev_chips = 0, connected = wait_for_connection,
       max_steps = max_steps_arg\<rparr>"

subsection \<open>\_get\_obs\<close>

definition get_obs :: "Runtime \<Rightarrow> Env \<Rightarrow> py_error + real list" where
  "get_obs rt env =
     (case current_state env of
        None \<Rightarrow> Inr (replicate get_observation_size 0)
      | Some st \<Rightarrow> tokenize_state rt st)"

subsection \<open>\_get\_info\<close>

definition state_info :: "GameState \<Rightarrow> info_dict \<Rightarrow> info_dict" where
  "state_info st info =
     (let info1 = info
            (''phase'' \<mapsto> IStr (GamePhase_value (phase st)),
             ''money'' \<mapsto> IInt (money st),
             ''ante'' \<mapsto> IInt (ante st),
             ''round'' \<mapsto> IInt (round_num st),
             ''hands_remaining'' \<mapsto> IInt (hands_remaining st),
             ''discards_remaining'' \<mapsto> IInt (discards_remaining st),
             ''hand_size'' \<mapsto> IInt (int (length (hand st))),
             ''joker_count'' \<mapsto> IInt (int (length (jokers st))))
      in case blind st of
           None \<Rightarrow> info1
         | Some b \<Rightarrow> info1
             (''chips_needed'' \<mapsto> (case chips_needed b of None \<Rightarrow> INone | Some c \<Rightarrow> IInt c),
              ''chips_scored'' \<mapsto> IInt (chips_scored b)))"

definition get_info :: "Env \<Rightarrow> py_error + info_dict" where
  "get_info env =
     (let info = [''step_count'' \<mapsto> IInt (step_count env),
                  ''episode_reward'' \<mapsto> IFloat (episode_reward env),
                  ''connected'' \<mapsto> IBool (connected env)];
          info1 = (case current_state env of None \<Rightarrow> info | Some st \<Rightarrow> state_info st info)
      in case current_legal env of
           None \<Rightarrow> Inr info1
         | Some legal \<Rightarrow>
             (let hand_size = (case current_state env of
                                 Some st \<Rightarrow> int (length (hand st))
                               | None \<Rightarrow> 8)
              in seq (get_legal_action_mask legal hand_size) (\<lambda>msk.
                 Inr (info1(''action_mask'' \<mapsto> IMask msk)))))"

subsection \<open>\_compute\_reward\<close>

definition compute_reward :: "GameState option \<Rightarrow> GameState \<Rightarrow> real" where
  "compute_reward prev_state new_state =
     (case prev_state of
        None \<Rightarrow> 0
      | Some prev \<Rightarrow>
          (let reward0 = (0::real);
               money_diff = money new_state - money prev;
               reward1 = reward0 + real_of_int money_diff;
               prev_chips_v = (case blind prev of Some b \<Rightarrow> chips_scored b | None \<Rightarrow> 0);
               new_chips_v = (case blind new_state of Some b \<Rightarrow> chips_scored b | None \<Rightarrow> 0);
               chip_diff = new_chips_v - prev_chips_v;
               reward2 = (if chip_diff > 0 then reward1 + real_of_int chip_diff / 1000 * 0.01
                          else reward1);
               prev_blind_name = (case blind prev of Some b \<Rightarrow> blind_name b | None \<Rightarrow> None);
               new_blind_name = (case blind new_state of Some b \<Rightarrow> blind_name b | None \<Rightarrow> None);
               reward3 = (if truthy_str prev_blind_name \<and> truthy_str new_blind_name
                             \<and> prev_blind_name \<noteq> new_blind_name
                          then reward2 + 10 else reward2);
               reward4 = (if ante new_state > ante prev then reward3 + 100 else reward3);
               reward5 = (if phase new_state = MENU \<and> phase prev \<noteq> MENU then reward4 - 100
                          else reward4)
           in reward5))"

subsection \<open>\_is\_terminal\<close>

definition is_terminal :: "Env \<Rightarrow> GameState \<Rightarrow> bool" where
  "is_terminal env st =
     (if phase st \<in> {MENU, SPLASH} then True
      else if step_count env \<ge> max_steps env then True
      else if truthy_str (error st) then True
      else False)"

subsection \<open>reset\<close>

text \<open>
  The tail of \<^verbatim>\<open>reset\<close> once the snapshot and the legal actions are stored: the previous
  money and chips, then the observation and the info.
\<close>

definition reset_finish ::
  "Runtime \<Rightarrow> Env \<Rightarrow> GameState \<Rightarrow> Env \<times> (py_error + real list \<times> info_dict)" where
  "reset_finish rt env st =
     (let env1 = env\<lparr>prev_money := money st,
                      prev_chips := (case blind st of Some b \<Rightarrow> chips_scored b | None \<Rightarrow> 0)\<rparr>
      in (env1,
          seq (get_obs rt env1) (\<lambda>obs.
          seq (get_info env1) (\<lambda>info.
          Inr (obs, info)))))"

text \<open>
  \<^verbatim>\<open>reset\<close> starts with \<^verbatim>\<open>super().reset(seed=seed)\<close>, which raises on a negative seed before
  anything is assigned.
\<close>

definition reset ::
  "Runtime \<Rightarrow> Bridge \<Rightarrow> Env \<Rightarrow> int option \<Rightarrow> Env \<times> (py_error + real list \<times> info_dict)" where
  "reset rt bridge env0 seed =
     (if (case seed of None \<Rightarrow> False | Some k \<Rightarrow> k < 0) then (env0, Inl GymnasiumError)
      else
       (let env = env0\<lparr>step_count := 0, episode_reward := 0\<rparr>;
            seed_arg = (case seed of None \<Rightarrow> None | Some k \<Rightarrow> if k = 0 then None else Some k)
        in case client_reset bridge seed_arg of
             Inr (st, legal) \<Rightarrow>
               reset_finish rt (env\<lparr>current_state := Some st, current_legal := Some legal\<rparr>) st
           | Inl (BalatroConnectionError e) \<Rightarrow>
               (case get_state bridge of
                  Inl e' \<Rightarrow> (env, Inl e')
                | Inr st \<Rightarrow>
                    (case get_legal_actions bridge of
                       Inl e' \<Rightarrow> (env\<lparr>current_state := Some st\<rparr>, Inl e')
                     | Inr legal \<Rightarrow>
                         reset_finish rt
                           (env\<lparr>current_state := Some st, current_legal := Some legal\<rparr>) st))
           | Inl e \<Rightarrow> (env, Inl e)))"

subsection \<open>step\<close>

text \<open>
  The body of the \<^verbatim>\<open>try\<close> block: the environment after the assignments that were reached,
  and the exception that ended the block, if any.
\<close>

definition submit :: "Bridge \<Rightarrow> Env \<Rightarrow> ActionRequest \<Rightarrow> Env \<times> py_error option" where
  "submit bridge env action_request =
     (case execute_action bridge action_request of
        Inl e \<Rightarrow> (env, Some e)
      | Inr result \<Rightarrow>
          if result_ok result \<and> result_state result \<noteq> None then
            (env\<lparr>current_state := result_state result, current_legal := result_legal result\<rparr>,
             None)
          else
            (case get_state bridge of
               Inl e \<Rightarrow> (env, Some e)
             | Inr st \<Rightarrow>
                 (case get_legal_actions bridge of
                    Inl e \<Rightarrow> (env\<lparr>current_state := Some st\<rparr>, Some e)
                  | Inr legal \<Rightarrow>
                      (env\<lparr>current_state := Some st, current_legal := Some legal\<rparr>, None))))"

type_synonym step_result = "real list \<times> real \<times> bool \<times> bool \<times> info_dict"

text \<open>
  \<^verbatim>\<open>step\<close> returns the environment as the call leaves it, also when the call raises, and
  either the exception or the five-tuple (observation, reward, terminated, truncated, info).
\<close>

definition step :: "Runtime \<Rightarrow> Bridge \<Rightarrow> Env \<Rightarrow> int \<Rightarrow> Env \<times> (py_error + step_result)" where
  "step rt bridge env0 action =
     (let env = env0\<lparr>step_count := step_count env0 + 1\<rparr>;
          prev_state = current_state env
      in case decode_action action of
           Inl e \<Rightarrow> (env, Inl e)
         | Inr action_request \<Rightarrow>
             (case submit bridge env action_request of
                (env1, Some (BalatroConnectionError e)) \<Rightarrow>
                  (let env2 = env1\<lparr>connected := False\<rparr>
                   in (env2,
                       seq (get_info env2) (\<lambda>info.
                       seq (get_obs rt env2) (\<lambda>obs.
                       Inr (obs, - 100, True, False, info(''error'' \<mapsto> IStr e))))))
              | (env1, Some e) \<Rightarrow> (env1, Inl e)
              | (env1, None) \<Rightarrow>
                  (case current_state env1 of
                     None \<Rightarrow> (env1, Inl AttributeError)
                   | Some st \<Rightarrow>
                       (let reward = compute_reward prev_state st;
                            env2 = env1\<lparr>episode_reward := episode_reward env1 + reward\<rparr>;
                            terminated = is_terminal env2 st;
                            truncated = (step_count env2 \<ge> max_steps env2)
                        in (env2,
                            seq (get_obs rt env2) (\<lambda>obs.
                            seq (get_info env2) (\<lambda>info.
                            Inr (obs, reward, terminated, truncated, info))))))))"

section \<open>Documented actions and their comparison\<close>

text \<open>
  The structured actions of the specification: one of the eleven kinds, with exactly the
  parameters of the kind, each in its domain (card positions 1 to 10, slots 1 to 6, joker
  and pack indices 1 to 5, the two sort modes, the three blind options).
\<close>

definition documented_action :: "ActionRequest \<Rightarrow> bool" where
  "documented_action a =
     (case rtype a of
        Raw s \<Rightarrow> False
      | Enum t \<Rightarrow>
          (case t of
             PLAY_HAND \<Rightarrow>
               (\<exists>xs. set xs \<subseteq> {1..10} \<and> params a = [''card_indices'' \<mapsto> PList (map PInt xs)])
           | DISCARD \<Rightarrow>
               (\<exists>xs. set xs \<subseteq> {1..10} \<and> params a = [''card_indices'' \<mapsto> PList (map PInt xs)])
           | SORT_HAND \<Rightarrow>
               params a = [''mode'' \<mapsto> PStr ''rank''] \<or> params a = [''mode'' \<mapsto> PStr ''suit'']
           | SHOP_BUY \<Rightarrow> (\<exists>k. 1 \<le> k \<and> k \<le> 6 \<and> params a = [''slot'' \<mapsto> PInt k])
           | SHOP_SELL_JOKER \<Rightarrow>
               (\<exists>k. 1 \<le> k \<and> k \<le> 5 \<and> params a = [''joker_index'' \<mapsto> PInt k])
           | SELECT_PACK_ITEM \<Rightarrow>
               (\<exists>k. 1 \<le> k \<and> k \<le> 5 \<and> params a = [''choice_index'' \<mapsto> PInt k])
           | SELECT_BLIND \<Rightarrow>
               (\<exists>opt. opt \<in> set blind_options \<and> params a = [''option'' \<mapsto> PStr opt])
           | _ \<Rightarrow> params a = Map.empty))"

text \<open>Two parameter values are the same positions when they are lists with the same elements.\<close>

fun same_positions :: "pyval option \<Rightarrow> pyval option \<Rightarrow> bool" where
  "same_positions (Some (PList xs)) (Some (PList ys)) = (set xs = set ys)"
| "same_positions u v = (u = v)"

text \<open>
  Semantic equality of two actions: the same kind and the same parameters, the card
  positions compared as sets.
\<close>

definition semantically_equal :: "ActionRequest \<Rightarrow> ActionRequest \<Rightarrow> bool" where
  "semantically_equal a b \<longleftrightarrow>
     rtype a = rtype b \<and>
     same_positions (params a ''card_indices'') (params b ''card_indices'') \<and>
     (\<forall>k. k \<noteq> ''card_indices'' \<longrightarrow> params a k = params b k)"

text \<open>Decoding an index and encoding the result.\<close>

definition encode_decode :: "int \<Rightarrow> py_error + int" where
  "encode_decode i = seq (decode_action i) encode_action"

text \<open>Encoding an action and decoding the result.\<close>

definition decode_encode :: "ActionRequest \<Rightarrow> py_error + ActionRequest" where
  "decode_encode a = seq (encode_action a) decode_action"

section \<open>Notions used to state the properties\<close>

text \<open>
  \<open>marked msk S msk'\<close>: the mask \<open>msk'\<close> is \<open>msk\<close> with the entries at the indices in \<open>S\<close> set to
  true.
\<close>

definition marked :: "bool list \<Rightarrow> int set \<Rightarrow> bool list \<Rightarrow> bool" where
  "marked msk S msk' \<longleftrightarrow>
     length msk' = length msk \<and> (\<forall>j < length msk. msk' ! j \<longleftrightarrow> msk ! j \<or> int j \<in> S)"

text \<open>
  \<open>play_hand_entry a hand_size A m M\<close>: the legal action \<open>a\<close> is a PLAY\_HAND entry with a
  non-empty \<^verbatim>\<open>card_indices\<close> whose available positions are \<open>A\<close>, whose \<^verbatim>\<open>min_select\<close> is \<open>m\<close> and
  whose \<^verbatim>\<open>max_select\<close> is \<open>M\<close>, each read with the default that the encoder uses.
\<close>

definition play_hand_entry :: "LegalAction \<Rightarrow> int \<Rightarrow> int list \<Rightarrow> int \<Rightarrow> int \<Rightarrow> bool" where
  "play_hand_entry a hand_size A m M \<longleftrightarrow>
     type_string (ltype a) = ''PLAY_HAND'' \<and>
     (\<exists>ci. card_indices (lparams a) = Some ci \<and> ci \<noteq> Map.empty
        \<and> dict_get ci ''available'' (PList (map PInt [1..hand_size])) = PList (map PInt A)
        \<and> dict_get ci ''min_select'' (PInt 1) = PInt m
        \<and> dict_get ci ''max_select'' (PInt 5) = PInt M)"

text \<open>
  \<open>renderable rt env\<close>: the observation and the info of the stored snapshot and legal
  actions are computed without an exception.
\<close>

definition renderable :: "Runtime \<Rightarrow> Env \<Rightarrow> bool" where
  "renderable rt env \<longleftrightarrow>
     (\<exists>obs. get_obs rt env = Inr obs) \<and> (\<exists>info. get_info env = Inr info)"

section \<open>Example values\<close>

text \<open>
  A snapshot in the hand-selection phase with no blind, a bridge that accepts every action
  and answers with that snapshot, a bridge that cannot be reached, and a runtime whose hash
  is the length of the string.
\<close>

definition example_state :: GameState where
  "example_state =
     \<lparr>phase = SELECTING_HAND, error = None, round_num = 1, ante = 1, money = 10,
       hands_remaining = 4, discards_remaining = 3, blind = None,
       hand = [], jokers = [], consumables = [], shop = None,
       deck_counts = \<lparr>deck_size = 52, discard_size = 0\<rparr>\<rparr>"

definition answering_bridge :: Bridge where
  "answering_bridge =
     \<lparr>client_reset = (\<lambda>seed. Inr (example_state, \<lparr>actions = []\<rparr>)),
       execute_action = (\<lambda>req. Inr \<lparr>result_ok = True, result_error = None,
                                     result_state = Some example_state, result_legal = None\<rparr>),
       get_state = Inr example_state,
       get_legal_actions = Inr \<lparr>actions = []\<rparr>\<rparr>"

definition unreachable_bridge :: Bridge where
  "unreachable_bridge =
     \<lparr>client_reset = (\<lambda>seed. Inl (BalatroConnectionError ''refused'')),
       execute_action = (\<lambda>req. Inl (BalatroConnectionError ''refused'')),
       get_state = Inl (BalatroConnectionError ''refused''),
       get_legal_actions = Inl (BalatroConnectionError ''refused'')\<rparr>"

text \<open>
  The snapshot with a blind whose \<^verbatim>\<open>chips_needed\<close> is \<^verbatim>\<open>None\<close>; a bridge whose reset answers
  with this snapshot and whose later calls cannot be reached; a bridge that rejects the
  action, answers the re-fetch of the state with this snapshot and cannot be reached for the
  legal actions.
\<close>

definition state_without_chips_needed :: GameState where
  "state_without_chips_needed =
     \<lparr>phase = SELECTING_HAND, error = None, round_num = 0, ante = 0, money = 0,
       hands_remaining = 0, discards_remaining = 0,
       blind = Some \<lparr>blind_name = Some ''Small Blind'', chips_needed = None,
                      chips_scored = 0, boss = False\<rparr>,
       hand = [], jokers = [], consumables = [], shop = None,
       deck_counts = \<lparr>deck_size = 0, discard_size = 0\<rparr>\<rparr>"

definition lost_after_reset_bridge :: Bridge where
  "lost_after_reset_bridge =
     \<lparr>client_reset = (\<lambda>seed. Inr (state_without_chips_needed, \<lparr>actions = []\<rparr>)),
       execute_action = (\<lambda>req. Inl (BalatroConnectionError ''refused'')),
       get_state = Inl (BalatroConnectionError ''refused''),
       get_legal_actions = Inl (BalatroConnectionError ''refused'')\<rparr>"

definition lost_during_refetch_bridge :: Bridge where
  "lost_during_refetch_bridge =
     \<lparr>client_reset = (\<lambda>seed. Inl (BalatroConnectionError ''refused'')),
       execute_action = (\<lambda>req. Inr \<lparr>result_ok = False, result_error = Some ''rejected'',
                                     result_state = None, result_legal = None\<rparr>),
       get_state = Inr state_without_chips_needed,
       get_legal_actions = Inl (BalatroConnectionError ''refused'')\<rparr>"

definition example_runtime :: Runtime where
  "example_runtime = \<lparr>py_hash = (\<lambda>s. int (length s)), py_int = (\<lambda>s. None)\<rparr>"



text \<open>
  Legal-action sets: SELECT\_BLIND alone; PLAY\_HAND with the available positions 1, 2, 3 and
  one or two cards to select; PLAY\_HAND with the available positions 1 and 11 and exactly one
  card to select.
\<close>

definition no_params :: ActionParams where
  "no_params = \<lparr>card_indices = None, slot = None, joker_index = None, choice_index = None\<rparr>"

definition blind_only :: LegalActions where
  "blind_only =
     \<lparr>actions = [\<lparr>ltype = Enum SELECT_BLIND, description = ''Select a blind'',
                   lparams = no_params\<rparr>]\<rparr>"

definition play_three :: LegalActions where
  "play_three =
     \<lparr>actions =
        [\<lparr>ltype = Enum PLAY_HAND, description = ''Play cards'',
          lparams = no_params
            \<lparr>card_indices :=
               Some [''available'' \<mapsto> PList [PInt 1, PInt 2, PInt 3],
                     ''min_select'' \<mapsto> PInt 1,
                     ''max_select'' \<mapsto> PInt 2]\<rparr>\<rparr>]\<rparr>"

definition play_beyond_ten :: LegalActions where
  "play_beyond_ten =
     \<lparr>actions =
        [\<lparr>ltype = Enum PLAY_HAND, description = ''Play cards'',
          lparams = no_params
            \<lparr>card_indices :=
               Some [''available'' \<mapsto> PList [PInt 1, PInt 11],
                     ''min_select'' \<mapsto> PInt 1,
                     ''max_select'' \<mapsto> PInt 1]\<rparr>\<rparr>]\<rparr>"

section \<open>Sequencing\<close>

lemma seqE:
  assumes "seq m f = Inr y"
  obtains x where "m = Inr x" "f x = Inr y"
  using assms by (cases m) (simp_all add: seq_def)

section \<open>The index layout\<close>

lemmas offset_defs = play_hand_offset_def discard_offset_def shop_buy_offset_def
  sell_joker_offset_def pack_select_offset_def blind_select_offset_def action_space_size_def
  MAX_SHOP_SLOTS_def MAX_JOKERS_def MAX_PACK_CHOICES_def

lemma offset_values:
  "play_hand_offset = 10" "discard_offset = 1034" "shop_buy_offset = 2058"
  "sell_joker_offset = 2064" "pack_select_offset = 2069" "blind_select_offset = 2074"
  "action_space_size = 2077"
  by (simp_all add: offset_defs)

lemma simple_actions_values:
  "simple_actions ''SHOP_REROLL'' = Some 0"
  "simple_actions ''SHOP_END'' = Some 1"
  "simple_actions ''SKIP_BLIND'' = Some 2"
  "simple_actions ''SKIP_PACK'' = Some 3"
  "simple_actions ''SORT_HAND_RANK'' = Some 4"
  "simple_actions ''SORT_HAND_SUIT'' = Some 5"
  by (simp_all add: simple_actions_def)

lemma decode_simple:
  "decode_action 0 = Inr (request SHOP_REROLL Map.empty)"
  "decode_action 1 = Inr (request SHOP_END Map.empty)"
  "decode_action 2 = Inr (request SKIP_BLIND Map.empty)"
  "decode_action 3 = Inr (request SKIP_PACK Map.empty)"
  "decode_action 4 = Inr (request SORT_HAND [''mode'' \<mapsto> PStr ''rank''])"
  "decode_action 5 = Inr (request SORT_HAND [''mode'' \<mapsto> PStr ''suit''])"
  by (simp_all add: decode_action_def simple_actions_values)

lemma decode_play_hand:
  "10 \<le> i \<Longrightarrow> i < 1034 \<Longrightarrow>
   decode_action i =
     Inr (request PLAY_HAND [''card_indices'' \<mapsto> PList (map PInt (bitmap_to_card_indices (i - 10)))])"
  by (simp add: decode_action_def simple_actions_values offset_values)

lemma decode_discard:
  "1034 \<le> i \<Longrightarrow> i < 2058 \<Longrightarrow>
   decode_action i =
     Inr (request DISCARD [''card_indices'' \<mapsto> PList (map PInt (bitmap_to_card_indices (i - 1034)))])"
  by (simp add: decode_action_def simple_actions_values offset_values)

lemma decode_shop_buy:
  "2058 \<le> i \<Longrightarrow> i < 2064 \<Longrightarrow>
   decode_action i = Inr (request SHOP_BUY [''slot'' \<mapsto> PInt (i - 2058 + 1)])"
  by (simp add: decode_action_def simple_actions_values offset_values)

lemma decode_sell_joker:
  "2064 \<le> i \<Longrightarrow> i < 2069 \<Longrightarrow>
   decode_action i = Inr (request SHOP_SELL_JOKER [''joker_index'' \<mapsto> PInt (i - 2064 + 1)])"
  by (simp add: decode_action_def simple_actions_values offset_values)

lemma decode_pack:
  "2069 \<le> i \<Longrightarrow> i < 2074 \<Longrightarrow>
   decode_action i = Inr (request SELECT_PACK_ITEM [''choice_index'' \<mapsto> PInt (i - 2069 + 1)])"
  by (simp add: decode_action_def simple_actions_values offset_values)

lemma decode_blind:
  "2074 \<le> i \<Longrightarrow> i < 2077 \<Longrightarrow>
   decode_action i = Inr (request SELECT_BLIND [''option'' \<mapsto> PStr (blind_options ! nat (i - 2074))])"
  by (simp add: decode_action_def simple_actions_values offset_values)



lemma decode_negative: "i < 0 \<Longrightarrow> decode_action i = Inl ValueError"
  by (simp add: decode_action_def simple_actions_values offset_values)

lemma decode_gap: "6 \<le> i \<Longrightarrow> i < 10 \<Longrightarrow> decode_action i = Inl ValueError"
  by (simp add: decode_action_def simple_actions_values offset_values)

lemma decode_beyond: "2077 \<le> i \<Longrightarrow> decode_action i = Inl ValueError"
  by (simp add: decode_action_def simple_actions_values offset_values)


lemma decode_lower:
  assumes "0 \<le> i" "i \<le> 5"
  shows "\<exists>r. decode_action i = Inr r"
proof -
  have "i = 0 \<or> i = 1 \<or> i = 2 \<or> i = 3 \<or> i = 4 \<or> i = 5"
    using assms by presburger
  then show ?thesis
    by (elim disjE) (simp_all add: decode_simple)
qed

lemma decode_upper:
  assumes "10 \<le> i" "i < 2077"
  shows "\<exists>r. decode_action i = Inr r"
proof (cases "i < 2058")
  case True
  show ?thesis
  proof (cases "i < 1034")
    case True
    with assms show ?thesis by (simp add: decode_play_hand)
  next
    case False
    with \<open>i < 2058\<close> show ?thesis by (simp add: decode_discard)
  qed
next
  case False
  note ge = this
  show ?thesis
  proof (cases "i < 2064")
    case True
    with ge show ?thesis by (simp add: decode_shop_buy)
  next
    case False
    note ge2 = this
    show ?thesis
    proof (cases "i < 2069")
      case True
      with ge2 show ?thesis by (simp add: decode_sell_joker)
    next
      case False
      note ge3 = this
      show ?thesis
      proof (cases "i < 2074")
        case True
        with ge3 show ?thesis by (simp add: decode_pack)
      next
        case False
        with assms show ?thesis by (simp add: decode_blind)
      qed
    qed
  qed
qed

lemma decode_fails:
  assumes "\<not> ((0 \<le> i \<and> i \<le> 5) \<or> (10 \<le> i \<and> i < 2077))"
  shows "decode_action i = Inl ValueError"
proof (cases "i < 0")
  case True
  then show ?thesis by (rule decode_negative)
next
  case False
  note nonneg = this
  show ?thesis
  proof (cases "i < 10")
    case True
    with nonneg assms have "6 \<le> i" by simp
    then show ?thesis using True by (rule decode_gap)
  next
    case False
    with assms have "2077 \<le> i" by simp
    then show ?thesis by (rule decode_beyond)
  qed
qed

lemma decode_succeeds_iff:
  "(\<exists>r. decode_action i = Inr r) \<longleftrightarrow> (0 \<le> i \<and> i \<le> 5) \<or> (10 \<le> i \<and> i < 2077)"
  using decode_lower [of i] decode_upper [of i] decode_fails [of i] by fastforce

section \<open>Bitmaps of card positions\<close>

lemma loop_step_in:
  "1 \<le> idx \<Longrightarrow> idx \<le> 10 \<Longrightarrow>
   card_indices_loop (PInt idx # rest) acc =
     card_indices_loop rest (acc OR push_bit (nat (idx - 1)) 1)"
  by (simp add: MAX_HAND_SIZE_def)

lemma loop_step_out:
  "idx < 1 \<or> 10 < idx \<Longrightarrow>
   card_indices_loop (PInt idx # rest) acc = card_indices_loop rest acc"
  by (auto simp: MAX_HAND_SIZE_def)

lemma or_bit_bound:
  fixes acc :: int
  assumes "0 \<le> acc" "acc < 1024" "k < 10"
  shows "0 \<le> acc OR push_bit k 1 \<and> acc OR push_bit k 1 < 1024"
proof -
  have "(2::int) ^ k < 2 ^ 10"
    using assms(3) by (rule power_strict_increasing) simp
  then have "acc OR 2 ^ k < 2 ^ 10"
    using assms(1,2) by (intro OR_upper) simp_all
  then show ?thesis using assms(1) by simp
qed

lemma loop_bound:
  "card_indices_loop xs acc = Inr b \<Longrightarrow> 0 \<le> acc \<Longrightarrow> acc < 1024 \<Longrightarrow> 0 \<le> b \<and> b < 1024"
proof (induction xs arbitrary: acc)
  case Nil
  then show ?case by simp
next
  case (Cons x xs)
  show ?case
  proof (cases x)
    case (PInt idx)
    show ?thesis
    proof (cases "1 \<le> idx \<and> idx \<le> 10")
      case True
      then have "nat (idx - 1) < 10" by linarith
      from or_bit_bound [OF Cons.prems(2,3) this] Cons.prems(1) Cons.IH True
      show ?thesis unfolding PInt by (simp only: loop_step_in)
    next
      case False
      then have "idx < 1 \<or> 10 < idx" by linarith
      with Cons show ?thesis unfolding PInt by (simp only: loop_step_out)
    qed
  qed (use Cons.prems in simp_all)
qed


lemma loop_bits:
  "\<exists>b. card_indices_loop (map PInt xs) acc = Inr b \<and>
       (\<forall>n. bit b n \<longleftrightarrow> bit acc n \<or> (n < 10 \<and> int n + 1 \<in> set xs))"
proof (induction xs arbitrary: acc)
  case Nil
  then show ?case by simp
next
  case (Cons x xs)
  show ?case
  proof (cases "1 \<le> x \<and> x \<le> 10")
    case True
    let ?acc = "acc OR push_bit (nat (x - 1)) 1"
    from Cons.IH [of ?acc] obtain b where
      b1: "card_indices_loop (map PInt xs) ?acc = Inr b" and
      b2: "\<And>n. bit b n \<longleftrightarrow> bit ?acc n \<or> (n < 10 \<and> int n + 1 \<in> set xs)"
      by blast
    have "n = nat (x - 1) \<longleftrightarrow> (n < 10 \<and> int n + 1 = x)" for n
      using True by linarith
    then have "bit ?acc n \<longleftrightarrow> bit acc n \<or> (n < 10 \<and> int n + 1 = x)" for n
      by (simp add: bit_or_iff bit_exp_iff)
    with b2 have "bit b n \<longleftrightarrow> bit acc n \<or> (n < 10 \<and> int n + 1 \<in> set (x # xs))" for n
      by auto
    moreover have "card_indices_loop (map PInt (x # xs)) acc = Inr b"
      using b1 True by (simp add: MAX_HAND_SIZE_def)
    ultimately show ?thesis by blast
  next
    case False
    then have out: "x < 1 \<or> 10 < x" by linarith
    from Cons.IH [of acc] obtain b where
      b1: "card_indices_loop (map PInt xs) acc = Inr b" and
      b2: "\<And>n. bit b n \<longleftrightarrow> bit acc n \<or> (n < 10 \<and> int n + 1 \<in> set xs)"
      by blast
    have "\<not> (n < 10 \<and> int n + 1 = x)" for n
      using False by linarith
    with b2 have "bit b n \<longleftrightarrow> bit acc n \<or> (n < 10 \<and> int n + 1 \<in> set (x # xs))" for n
      by auto
    moreover have "card_indices_loop (map PInt (x # xs)) acc = Inr b"
      using b1 out by (auto simp add: MAX_HAND_SIZE_def)
    ultimately show ?thesis by blast
  qed
qed

lemma bit_indices:
  "set (bitmap_to_card_indices b) = {int i + 1 | i. i < 10 \<and> bit b i}"
  by (auto simp: bitmap_to_card_indices_def MAX_HAND_SIZE_def bit_iff_and_push_bit_not_eq_0)

lemma bits_below_1024:
  fixes b :: int
  assumes "0 \<le> b" "b < 1024" "bit b n"
  shows "n < 10"
proof -
  have "b < 2 ^ 10" using assms(2) by simp
  with assms(1) have eq: "take_bit 10 b = b" by (rule take_bit_int_eq_self)
  have "bit (take_bit 10 b) n" unfolding eq by (rule assms(3))
  then show ?thesis by (simp only: bit_take_bit_iff)
qed

lemma bitmap_roundtrip:
  assumes "0 \<le> b" "b < 1024"
  shows "card_indices_to_bitmap (PList (map PInt (bitmap_to_card_indices b))) = Inr b"
proof -
  from loop_bits [of "bitmap_to_card_indices b" 0] obtain c where
    c1: "card_indices_loop (map PInt (bitmap_to_card_indices b)) 0 = Inr c" and
    c2: "\<And>n. bit c n \<longleftrightarrow> (n < 10 \<and> int n + 1 \<in> set (bitmap_to_card_indices b))"
    by auto
  have "bit c n \<longleftrightarrow> bit b n" for n
    using bits_below_1024 [OF assms, of n] by (auto simp: c2 bit_indices)
  then have "c = b" by (rule bit_eqI)
  with c1 show ?thesis by (simp add: card_indices_to_bitmap_def)
qed

section \<open>Encoding\<close>

lemma encode_simple:
  "encode_action (request SHOP_REROLL ps) = Inr 0"
  "encode_action (request SHOP_END ps) = Inr 1"
  "encode_action (request SKIP_BLIND ps) = Inr 2"
  "encode_action (request SKIP_PACK ps) = Inr 3"
  by (simp_all add: encode_action_def request_def getitem_def simple_actions_values)

lemma encode_sort_hand:
  "encode_action (request SORT_HAND ps) =
     (case dict_get ps ''mode'' (PStr ''rank'') of
        PStr mode \<Rightarrow> getitem simple_actions (''SORT_HAND_'' @ upper mode)
      | _ \<Rightarrow> Inl AttributeError)"
  by (simp add: encode_action_def request_def)

lemma encode_play_hand:
  "encode_action (request PLAY_HAND ps) =
     seq (card_indices_to_bitmap (dict_get ps ''card_indices'' (PList [])))
       (\<lambda>bitmap. Inr (10 + bitmap))"
  by (simp add: encode_action_def request_def seq_def offset_values split: sum.split)

lemma encode_discard:
  "encode_action (request DISCARD ps) =
     seq (card_indices_to_bitmap (dict_get ps ''card_indices'' (PList [])))
       (\<lambda>bitmap. Inr (1034 + bitmap))"
  by (simp add: encode_action_def request_def seq_def offset_values split: sum.split)

lemma encode_shop_buy:
  "encode_action (request SHOP_BUY ps) = offset_plus 2058 (dict_get ps ''slot'' (PInt 1))"
  by (simp add: encode_action_def request_def offset_values)

lemma encode_sell_joker:
  "encode_action (request SHOP_SELL_JOKER ps) =
     offset_plus 2064 (dict_get ps ''joker_index'' (PInt 1))"
  by (simp add: encode_action_def request_def offset_values)

lemma encode_pack:
  "encode_action (request SELECT_PACK_ITEM ps) =
     offset_plus 2069 (dict_get ps ''choice_index'' (PInt 1))"
  by (simp add: encode_action_def request_def offset_values)

lemma encode_blind:
  "encode_action (request SELECT_BLIND ps) =
     seq (blind_option_index (dict_get ps ''option'' (PStr ''small''))) (\<lambda>k. Inr (2074 + k))"
  by (simp add: encode_action_def request_def seq_def offset_values split: sum.split)

lemma upper_modes: "upper ''rank'' = ''RANK''" "upper ''suit'' = ''SUIT''"
  by (simp_all add: upper_def upper_char_def)

section \<open>Decoding, then encoding\<close>

lemma encode_decode_play_hand:
  assumes "10 \<le> i" "i < 1034"
  shows "encode_decode i = Inr i"
proof -
  have "0 \<le> i - 10" "i - 10 < 1024" using assms by simp_all
  then have "card_indices_to_bitmap (PList (map PInt (bitmap_to_card_indices (i - 10)))) = Inr (i - 10)"
    by (rule bitmap_roundtrip)
  then show ?thesis
    using assms by (simp add: encode_decode_def seq_def decode_play_hand encode_play_hand dict_get_def)
qed

lemma encode_decode_discard:
  assumes "1034 \<le> i" "i < 2058"
  shows "encode_decode i = Inr i"
proof -
  have "0 \<le> i - 1034" "i - 1034 < 1024" using assms by simp_all
  then have "card_indices_to_bitmap (PList (map PInt (bitmap_to_card_indices (i - 1034)))) = Inr (i - 1034)"
    by (rule bitmap_roundtrip)
  then show ?thesis
    using assms by (simp add: encode_decode_def seq_def decode_discard encode_discard dict_get_def)
qed

lemma encode_decode_simple:
  "encode_decode 0 = Inr 0" "encode_decode 1 = Inr 1" "encode_decode 2 = Inr 2"
  "encode_decode 3 = Inr 3" "encode_decode 4 = Inr 4" "encode_decode 5 = Inr 5"
  by (simp_all add: encode_decode_def seq_def decode_simple encode_simple encode_sort_hand
        dict_get_def upper_modes getitem_def simple_actions_values)

lemma encode_decode_shop_buy:
  "2058 \<le> i \<Longrightarrow> i < 2064 \<Longrightarrow> encode_decode i = Inr i"
  by (simp add: encode_decode_def seq_def decode_shop_buy encode_shop_buy dict_get_def)

lemma encode_decode_sell_joker:
  "2064 \<le> i \<Longrightarrow> i < 2069 \<Longrightarrow> encode_decode i = Inr i"
  by (simp add: encode_decode_def seq_def decode_sell_joker encode_sell_joker dict_get_def)

lemma encode_decode_pack:
  "2069 \<le> i \<Longrightarrow> i < 2074 \<Longrightarrow> encode_decode i = Inr i"
  by (simp add: encode_decode_def seq_def decode_pack encode_pack dict_get_def)

lemma encode_decode_blind:
  assumes "2074 \<le> i" "i < 2077"
  shows "encode_decode i = Inr i"
proof -
  have "i = 2074 \<or> i = 2075 \<or> i = 2076" using assms by presburger
  then show ?thesis
    by (elim disjE)
       (simp_all add: encode_decode_def seq_def decode_blind encode_blind dict_get_def
          blind_options_def)
qed

lemma encode_decode_lower:
  assumes "0 \<le> i" "i \<le> 5"
  shows "encode_decode i = Inr i"
proof -
  have "i = 0 \<or> i = 1 \<or> i = 2 \<or> i = 3 \<or> i = 4 \<or> i = 5"
    using assms by presburger
  then show ?thesis
    by (elim disjE) (simp_all add: encode_decode_simple)
qed

lemma encode_decode_upper:
  assumes "10 \<le> i" "i < 2077"
  shows "encode_decode i = Inr i"
proof (cases "i < 2058")
  case True
  show ?thesis
  proof (cases "i < 1034")
    case True
    with assms show ?thesis by (simp add: encode_decode_play_hand)
  next
    case False
    with \<open>i < 2058\<close> show ?thesis by (simp add: encode_decode_discard)
  qed
next
  case False
  note ge = this
  show ?thesis
  proof (cases "i < 2064")
    case True
    with ge show ?thesis by (simp add: encode_decode_shop_buy)
  next
    case False
    note ge2 = this
    show ?thesis
    proof (cases "i < 2069")
      case True
      with ge2 show ?thesis by (simp add: encode_decode_sell_joker)
    next
      case False
      note ge3 = this
      show ?thesis
      proof (cases "i < 2074")
        case True
        with ge3 show ?thesis by (simp add: encode_decode_pack)
      next
        case False
        with assms show ?thesis by (simp add: encode_decode_blind)
      qed
    qed
  qed
qed

lemma encode_after_decode:
  assumes "decode_action i = Inr r"
  shows "encode_action r = Inr i"
proof -
  from assms have "(0 \<le> i \<and> i \<le> 5) \<or> (10 \<le> i \<and> i < 2077)"
    using decode_succeeds_iff [of i] by blast
  then have "encode_decode i = Inr i"
    using encode_decode_lower [of i] encode_decode_upper [of i] by blast
  with assms show ?thesis by (simp add: encode_decode_def seq_def)
qed

section \<open>Encoding, then decoding\<close>

lemma positions_of_bitmap:
  assumes "set xs \<subseteq> {1..10}"
  shows "\<exists>b. card_indices_to_bitmap (PList (map PInt xs)) = Inr b \<and> 0 \<le> b \<and> b < 1024
           \<and> set (bitmap_to_card_indices b) = set xs"
proof -
  from loop_bits [of xs 0] obtain b where
    b1: "card_indices_loop (map PInt xs) 0 = Inr b" and
    b2: "\<And>n. bit b n \<longleftrightarrow> (n < 10 \<and> int n + 1 \<in> set xs)"
    by auto
  from loop_bound [OF b1] have bound: "0 \<le> b \<and> b < 1024" by simp
  have "set (bitmap_to_card_indices b) = set xs"
  proof (rule set_eqI)
    fix x
    show "x \<in> set (bitmap_to_card_indices b) \<longleftrightarrow> x \<in> set xs"
    proof
      assume "x \<in> set (bitmap_to_card_indices b)"
      then obtain i where "x = int i + 1" "i < 10" "bit b i"
        unfolding bit_indices by blast
      then show "x \<in> set xs" using b2 by simp
    next
      assume x: "x \<in> set xs"
      with assms have "1 \<le> x" "x \<le> 10" by auto
      then have "x = int (nat (x - 1)) + 1" "nat (x - 1) < 10" by linarith+
      moreover from this x have "bit b (nat (x - 1))" using b2 by simp
      ultimately show "x \<in> set (bitmap_to_card_indices b)"
        unfolding bit_indices by blast
    qed
  qed
  with b1 bound show ?thesis by (simp add: card_indices_to_bitmap_def)
qed

lemma decode_encode_play_hand:
  assumes "set xs \<subseteq> {1..10}"
  shows "\<exists>ys. decode_encode (request PLAY_HAND [''card_indices'' \<mapsto> PList (map PInt xs)])
                 = Inr (request PLAY_HAND [''card_indices'' \<mapsto> PList (map PInt ys)])
              \<and> set ys = set xs"
proof -
  from positions_of_bitmap [OF assms] obtain b where
    b: "card_indices_to_bitmap (PList (map PInt xs)) = Inr b" "0 \<le> b" "b < 1024"
       "set (bitmap_to_card_indices b) = set xs"
    by blast
  have "decode_action (10 + b) =
          Inr (request PLAY_HAND [''card_indices'' \<mapsto> PList (map PInt (bitmap_to_card_indices b))])"
    using b(2,3) by (simp add: decode_play_hand)
  then have "decode_encode (request PLAY_HAND [''card_indices'' \<mapsto> PList (map PInt xs)])
      = Inr (request PLAY_HAND [''card_indices'' \<mapsto> PList (map PInt (bitmap_to_card_indices b))])"
    using b(1) by (simp add: decode_encode_def encode_play_hand seq_def dict_get_def)
  with b(4) show ?thesis by blast
qed

lemma decode_encode_discard:
  assumes "set xs \<subseteq> {1..10}"
  shows "\<exists>ys. decode_encode (request DISCARD [''card_indices'' \<mapsto> PList (map PInt xs)])
                 = Inr (request DISCARD [''card_indices'' \<mapsto> PList (map PInt ys)])
              \<and> set ys = set xs"
proof -
  from positions_of_bitmap [OF assms] obtain b where
    b: "card_indices_to_bitmap (PList (map PInt xs)) = Inr b" "0 \<le> b" "b < 1024"
       "set (bitmap_to_card_indices b) = set xs"
    by blast
  have "decode_action (1034 + b) =
          Inr (request DISCARD [''card_indices'' \<mapsto> PList (map PInt (bitmap_to_card_indices b))])"
    using b(2,3) by (simp add: decode_discard)
  then have "decode_encode (request DISCARD [''card_indices'' \<mapsto> PList (map PInt xs)])
      = Inr (request DISCARD [''card_indices'' \<mapsto> PList (map PInt (bitmap_to_card_indices b))])"
    using b(1) by (simp add: decode_encode_def encode_discard seq_def dict_get_def)
  with b(4) show ?thesis by blast
qed

lemma decode_encode_simple:
  "decode_encode (request SHOP_REROLL Map.empty) = Inr (request SHOP_REROLL Map.empty)"
  "decode_encode (request SHOP_END Map.empty) = Inr (request SHOP_END Map.empty)"
  "decode_encode (request SKIP_BLIND Map.empty) = Inr (request SKIP_BLIND Map.empty)"
  "decode_encode (request SKIP_PACK Map.empty) = Inr (request SKIP_PACK Map.empty)"
  by (simp_all add: decode_encode_def seq_def encode_simple decode_simple)

lemma decode_encode_sort_hand:
  "decode_encode (request SORT_HAND [''mode'' \<mapsto> PStr ''rank''])
     = Inr (request SORT_HAND [''mode'' \<mapsto> PStr ''rank''])"
  "decode_encode (request SORT_HAND [''mode'' \<mapsto> PStr ''suit''])
     = Inr (request SORT_HAND [''mode'' \<mapsto> PStr ''suit''])"
  by (simp_all add: decode_encode_def seq_def encode_sort_hand decode_simple dict_get_def
        upper_modes getitem_def simple_actions_values)

lemma decode_encode_shop_buy:
  "1 \<le> k \<Longrightarrow> k \<le> 6 \<Longrightarrow>
   decode_encode (request SHOP_BUY [''slot'' \<mapsto> PInt k]) = Inr (request SHOP_BUY [''slot'' \<mapsto> PInt k])"
  by (simp add: decode_encode_def seq_def encode_shop_buy decode_shop_buy dict_get_def)

lemma decode_encode_sell_joker:
  "1 \<le> k \<Longrightarrow> k \<le> 5 \<Longrightarrow>
   decode_encode (request SHOP_SELL_JOKER [''joker_index'' \<mapsto> PInt k])
     = Inr (request SHOP_SELL_JOKER [''joker_index'' \<mapsto> PInt k])"
  by (simp add: decode_encode_def seq_def encode_sell_joker decode_sell_joker dict_get_def)

lemma decode_encode_pack:
  "1 \<le> k \<Longrightarrow> k \<le> 5 \<Longrightarrow>
   decode_encode (request SELECT_PACK_ITEM [''choice_index'' \<mapsto> PInt k])
     = Inr (request SELECT_PACK_ITEM [''choice_index'' \<mapsto> PInt k])"
  by (simp add: decode_encode_def seq_def encode_pack decode_pack dict_get_def)

lemma decode_encode_blind:
  assumes "opt \<in> set blind_options"
  shows "decode_encode (request SELECT_BLIND [''option'' \<mapsto> PStr opt])
           = Inr (request SELECT_BLIND [''option'' \<mapsto> PStr opt])"
proof -
  from assms have "opt = ''small'' \<or> opt = ''big'' \<or> opt = ''boss''"
    by (simp add: blind_options_def)
  then show ?thesis
    by (elim disjE)
       (simp_all add: decode_encode_def seq_def encode_blind decode_blind dict_get_def
          blind_options_def)
qed

lemma request_eq: "rtype a = Enum t \<Longrightarrow> params a = ps \<Longrightarrow> a = request t ps"
  by (cases a) (simp add: request_def)

lemma same_positions_refl: "same_positions u u"
proof (cases u)
  case None
  then show ?thesis by simp
next
  case (Some v)
  then show ?thesis by (cases v) simp_all
qed

lemma semantically_equal_refl: "semantically_equal a a"
  by (simp add: semantically_equal_def same_positions_refl)

lemma semantically_equal_positions:
  "set ys = set xs \<Longrightarrow>
   semantically_equal (request t [''card_indices'' \<mapsto> PList (map PInt ys)])
     (request t [''card_indices'' \<mapsto> PList (map PInt xs)])"
  by (simp add: semantically_equal_def request_def)

lemma decode_after_encode:
  assumes "documented_action a"
  shows "\<exists>r. decode_encode a = Inr r \<and> semantically_equal r a"
proof (cases "rtype a")
  case (Raw s)
  with assms show ?thesis by (simp add: documented_action_def)
next
  case (Enum t)
  show ?thesis
  proof (cases t)
    case PLAY_HAND
    with assms Enum obtain xs where
      xs: "set xs \<subseteq> {1..10}" "params a = [''card_indices'' \<mapsto> PList (map PInt xs)]"
      by (auto simp: documented_action_def)
    from Enum PLAY_HAND xs(2)
    have a: "a = request PLAY_HAND [''card_indices'' \<mapsto> PList (map PInt xs)]"
      by (simp add: request_eq)
    from decode_encode_play_hand [OF xs(1)] show ?thesis
      unfolding a using semantically_equal_positions by blast
  next
    case DISCARD
    with assms Enum obtain xs where
      xs: "set xs \<subseteq> {1..10}" "params a = [''card_indices'' \<mapsto> PList (map PInt xs)]"
      by (auto simp: documented_action_def)
    from Enum DISCARD xs(2)
    have a: "a = request DISCARD [''card_indices'' \<mapsto> PList (map PInt xs)]"
      by (simp add: request_eq)
    from decode_encode_discard [OF xs(1)] show ?thesis
      unfolding a using semantically_equal_positions by blast
  next
    case SORT_HAND
    with assms Enum have
      "params a = [''mode'' \<mapsto> PStr ''rank''] \<or> params a = [''mode'' \<mapsto> PStr ''suit'']"
      by (simp add: documented_action_def)
    with Enum SORT_HAND have
      "a = request SORT_HAND [''mode'' \<mapsto> PStr ''rank'']
       \<or> a = request SORT_HAND [''mode'' \<mapsto> PStr ''suit'']"
      using request_eq by blast
    then show ?thesis
      using decode_encode_sort_hand semantically_equal_refl by (elim disjE) simp_all
  next
    case SHOP_BUY
    with assms Enum obtain k where
      k: "1 \<le> k" "k \<le> 6" "params a = [''slot'' \<mapsto> PInt k]"
      by (auto simp: documented_action_def)
    from Enum SHOP_BUY k(3) have "a = request SHOP_BUY [''slot'' \<mapsto> PInt k]"
      by (simp add: request_eq)
    with decode_encode_shop_buy [OF k(1,2)] show ?thesis
      by (simp add: semantically_equal_refl)
  next
    case SHOP_REROLL
    with assms Enum have "a = request SHOP_REROLL Map.empty"
      by (simp add: documented_action_def request_eq)
    then show ?thesis by (simp add: decode_encode_simple semantically_equal_refl)
  next
    case SHOP_SELL_JOKER
    with assms Enum obtain k where
      k: "1 \<le> k" "k \<le> 5" "params a = [''joker_index'' \<mapsto> PInt k]"
      by (auto simp: documented_action_def)
    from Enum SHOP_SELL_JOKER k(3) have "a = request SHOP_SELL_JOKER [''joker_index'' \<mapsto> PInt k]"
      by (simp add: request_eq)
    with decode_encode_sell_joker [OF k(1,2)] show ?thesis
      by (simp add: semantically_equal_refl)
  next
    case SHOP_END
    with assms Enum have "a = request SHOP_END Map.empty"
      by (simp add: documented_action_def request_eq)
    then show ?thesis by (simp add: decode_encode_simple semantically_equal_refl)
  next
    case SELECT_BLIND
    with assms Enum obtain opt where
      opt: "opt \<in> set blind_options" "params a = [''option'' \<mapsto> PStr opt]"
      by (auto simp: documented_action_def)
    from Enum SELECT_BLIND opt(2) have "a = request SELECT_BLIND [''option'' \<mapsto> PStr opt]"
      by (simp add: request_eq)
    with decode_encode_blind [OF opt(1)] show ?thesis
      by (simp add: semantically_equal_refl)
  next
    case SKIP_BLIND
    with assms Enum have "a = request SKIP_BLIND Map.empty"
      by (simp add: documented_action_def request_eq)
    then show ?thesis by (simp add: decode_encode_simple semantically_equal_refl)
  next
    case SELECT_PACK_ITEM
    with assms Enum obtain k where
      k: "1 \<le> k" "k \<le> 5" "params a = [''choice_index'' \<mapsto> PInt k]"
      by (auto simp: documented_action_def)
    from Enum SELECT_PACK_ITEM k(3) have "a = request SELECT_PACK_ITEM [''choice_index'' \<mapsto> PInt k]"
      by (simp add: request_eq)
    with decode_encode_pack [OF k(1,2)] show ?thesis
      by (simp add: semantically_equal_refl)
  next
    case SKIP_PACK
    with assms Enum have "a = request SKIP_PACK Map.empty"
      by (simp add: documented_action_def request_eq)
    then show ?thesis by (simp add: decode_encode_simple semantically_equal_refl)
  qed
qed

section \<open>The kind of each region\<close>

lemma decode_kind_lower:
  assumes "0 \<le> i" "i \<le> 5" "decode_action i = Inr r"
  shows "rtype r \<in> Enum ` {SHOP_REROLL, SHOP_END, SKIP_BLIND, SKIP_PACK, SORT_HAND}"
proof -
  have "i = 0 \<or> i = 1 \<or> i = 2 \<or> i = 3 \<or> i = 4 \<or> i = 5"
    using assms(1,2) by presburger
  then show ?thesis
    using assms(3) by (elim disjE) (auto simp add: decode_simple request_def)
qed

lemma decode_kinds:
  assumes "decode_action i = Inr r"
  shows "(rtype r \<in> Enum ` {SHOP_REROLL, SHOP_END, SKIP_BLIND, SKIP_PACK, SORT_HAND}
            \<longleftrightarrow> 0 \<le> i \<and> i < 6)
       \<and> (rtype r = Enum PLAY_HAND \<longleftrightarrow> 10 \<le> i \<and> i < 10 + 1024)
       \<and> (rtype r = Enum DISCARD \<longleftrightarrow> 1034 \<le> i \<and> i < 1034 + 1024)
       \<and> (rtype r = Enum SHOP_BUY \<longleftrightarrow> 2058 \<le> i \<and> i < 2058 + 6)
       \<and> (rtype r = Enum SHOP_SELL_JOKER \<longleftrightarrow> 2064 \<le> i \<and> i < 2064 + 5)
       \<and> (rtype r = Enum SELECT_PACK_ITEM \<longleftrightarrow> 2069 \<le> i \<and> i < 2069 + 5)
       \<and> (rtype r = Enum SELECT_BLIND \<longleftrightarrow> 2074 \<le> i \<and> i < 2074 + 3)"
proof -
  from assms have dom: "(0 \<le> i \<and> i \<le> 5) \<or> (10 \<le> i \<and> i < 2077)"
    using decode_succeeds_iff [of i] by blast
  show ?thesis
  proof (cases "i \<le> 5")
    case True
    with dom have low: "0 \<le> i" "i \<le> 5" by simp_all
    from decode_kind_lower [OF low assms] low show ?thesis by auto
  next
    case False
    with dom have up: "10 \<le> i" "i < 2077" by simp_all
    show ?thesis
    proof (cases "i < 2058")
      case True
      show ?thesis
      proof (cases "i < 1034")
        case True
        with up assms have "rtype r = Enum PLAY_HAND"
          by (auto simp add: decode_play_hand request_def)
        with True up show ?thesis by simp
      next
        case False
        with \<open>i < 2058\<close> assms have "rtype r = Enum DISCARD"
          by (auto simp add: decode_discard request_def)
        with False \<open>i < 2058\<close> show ?thesis by simp
      qed
    next
      case False
      note ge = this
      show ?thesis
      proof (cases "i < 2064")
        case True
        with ge assms have "rtype r = Enum SHOP_BUY"
          by (auto simp add: decode_shop_buy request_def)
        with True ge show ?thesis by simp
      next
        case False
        note ge2 = this
        show ?thesis
        proof (cases "i < 2069")
          case True
          with ge2 assms have "rtype r = Enum SHOP_SELL_JOKER"
            by (auto simp add: decode_sell_joker request_def)
          with True ge2 show ?thesis by simp
        next
          case False
          note ge3 = this
          show ?thesis
          proof (cases "i < 2074")
            case True
            with ge3 assms have "rtype r = Enum SELECT_PACK_ITEM"
              by (auto simp add: decode_pack request_def)
            with True ge3 show ?thesis by simp
          next
            case False
            with up assms have "rtype r = Enum SELECT_BLIND"
              by (auto simp add: decode_blind request_def)
            with False up show ?thesis by simp
          qed
        qed
      qed
    qed
  qed
qed

section \<open>Claims about the action codec\<close>

text \<open>
  Claim C1, as the code has it.  The regions of the index space do not overlap and come in
  the order simple actions, PLAY\_HAND, DISCARD, SHOP\_BUY, SHOP\_SELL\_JOKER,
  SELECT\_PACK\_ITEM, SELECT\_BLIND, with sizes 6, 1024, 1024, 6, 5, 5 and 3: an index that
  decodes has a kind of a region exactly when it lies in that region.  The simple actions
  take the indices 0 to 5, the PLAY\_HAND region starts at 10, so that the four indices 6 to
  9 belong to no region, and every later region starts where the one before it ends.  The
  size reported by the codec, which the environment advertises as its action space, is
  2077.
\<close>

theorem action_index_layout:
  "(\<forall>i r. decode_action i = Inr r \<longrightarrow>
      (rtype r \<in> Enum ` {SHOP_REROLL, SHOP_END, SKIP_BLIND, SKIP_PACK, SORT_HAND}
          \<longleftrightarrow> 0 \<le> i \<and> i < 6)
      \<and> (rtype r = Enum PLAY_HAND \<longleftrightarrow> play_hand_offset \<le> i \<and> i < play_hand_offset + 1024)
      \<and> (rtype r = Enum DISCARD \<longleftrightarrow> discard_offset \<le> i \<and> i < discard_offset + 1024)
      \<and> (rtype r = Enum SHOP_BUY \<longleftrightarrow> shop_buy_offset \<le> i \<and> i < shop_buy_offset + 6)
      \<and> (rtype r = Enum SHOP_SELL_JOKER
            \<longleftrightarrow> sell_joker_offset \<le> i \<and> i < sell_joker_offset + 5)
      \<and> (rtype r = Enum SELECT_PACK_ITEM
            \<longleftrightarrow> pack_select_offset \<le> i \<and> i < pack_select_offset + 5)
      \<and> (rtype r = Enum SELECT_BLIND
            \<longleftrightarrow> blind_select_offset \<le> i \<and> i < blind_select_offset + 3))
   \<and> play_hand_offset = 6 + 4
   \<and> discard_offset = play_hand_offset + 1024
   \<and> shop_buy_offset = discard_offset + 1024
   \<and> sell_joker_offset = shop_buy_offset + 6
   \<and> pack_select_offset = sell_joker_offset + 5
   \<and> blind_select_offset = pack_select_offset + 5
   \<and> get_action_space_size = blind_select_offset + 3
   \<and> get_action_space_size = 2077
   \<and> action_space_n = 2077"
proof -
  have "\<forall>i r. decode_action i = Inr r \<longrightarrow>
      (rtype r \<in> Enum ` {SHOP_REROLL, SHOP_END, SKIP_BLIND, SKIP_PACK, SORT_HAND}
          \<longleftrightarrow> 0 \<le> i \<and> i < 6)
      \<and> (rtype r = Enum PLAY_HAND \<longleftrightarrow> play_hand_offset \<le> i \<and> i < play_hand_offset + 1024)
      \<and> (rtype r = Enum DISCARD \<longleftrightarrow> discard_offset \<le> i \<and> i < discard_offset + 1024)
      \<and> (rtype r = Enum SHOP_BUY \<longleftrightarrow> shop_buy_offset \<le> i \<and> i < shop_buy_offset + 6)
      \<and> (rtype r = Enum SHOP_SELL_JOKER
            \<longleftrightarrow> sell_joker_offset \<le> i \<and> i < sell_joker_offset + 5)
      \<and> (rtype r = Enum SELECT_PACK_ITEM
            \<longleftrightarrow> pack_select_offset \<le> i \<and> i < pack_select_offset + 5)
      \<and> (rtype r = Enum SELECT_BLIND
            \<longleftrightarrow> blind_select_offset \<le> i \<and> i < blind_select_offset + 3)"
    unfolding offset_values using decode_kinds by blast
  moreover have "play_hand_offset = 6 + 4" "discard_offset = play_hand_offset + 1024"
    "shop_buy_offset = discard_offset + 1024" "sell_joker_offset = shop_buy_offset + 6"
    "pack_select_offset = sell_joker_offset + 5" "blind_select_offset = pack_select_offset + 5"
    "get_action_space_size = blind_select_offset + 3" "get_action_space_size = 2077"
    "action_space_n = 2077"
    by (simp_all add: offset_values get_action_space_size_def action_space_n_def)
  ultimately show ?thesis by blast
qed

theorem action_index_layout_witness:
  "decode_action 1033 = Inr (request PLAY_HAND
      [''card_indices'' \<mapsto> PList (map PInt (bitmap_to_card_indices 1023))])
   \<and> (rtype (request PLAY_HAND [''card_indices'' \<mapsto> PList (map PInt (bitmap_to_card_indices 1023))])
         = Enum PLAY_HAND
       \<longleftrightarrow> play_hand_offset \<le> 1033 \<and> 1033 < play_hand_offset + 1024)
   \<and> play_hand_offset = 10"
proof -
  have d: "decode_action 1033 = Inr (request PLAY_HAND
      [''card_indices'' \<mapsto> PList (map PInt (bitmap_to_card_indices 1023))])"
    by (simp add: decode_play_hand)
  from action_index_layout d show ?thesis by (simp add: request_def)
qed

theorem action_space_size_counterexample:
  "get_action_space_size \<noteq> 2073 \<and> play_hand_offset \<noteq> 6"
  by (simp add: get_action_space_size_def offset_values)


text \<open>
  Claim C2, as the code has it.  \<open>decode_action\<close> returns an action exactly on the indices
  0 to 5 and 10 to \<open>get_action_space_size - 1\<close>, and raises ValueError on every other
  integer: the negative ones, the reserved indices 6 to 9, and those from the reported size
  on.
\<close>

theorem decode_action_domain:
  "((\<exists>r. decode_action i = Inr r)
      \<longleftrightarrow> (0 \<le> i \<and> i \<le> 5) \<or> (10 \<le> i \<and> i < get_action_space_size))
   \<and> (decode_action i = Inl ValueError
      \<longleftrightarrow> i < 0 \<or> (6 \<le> i \<and> i \<le> 9) \<or> get_action_space_size \<le> i)"
proof -
  have size: "get_action_space_size = 2077"
    by (simp add: get_action_space_size_def offset_values)
  have ok: "(\<exists>r. decode_action i = Inr r) \<longleftrightarrow> (0 \<le> i \<and> i \<le> 5) \<or> (10 \<le> i \<and> i < 2077)"
    by (rule decode_succeeds_iff)
  have "decode_action i = Inl ValueError \<longleftrightarrow> \<not> ((0 \<le> i \<and> i \<le> 5) \<or> (10 \<le> i \<and> i < 2077))"
  proof
    assume "decode_action i = Inl ValueError"
    then have "\<not> (\<exists>r. decode_action i = Inr r)" by simp
    then show "\<not> ((0 \<le> i \<and> i \<le> 5) \<or> (10 \<le> i \<and> i < 2077))" using ok by simp
  next
    assume "\<not> ((0 \<le> i \<and> i \<le> 5) \<or> (10 \<le> i \<and> i < 2077))"
    then show "decode_action i = Inl ValueError" by (rule decode_fails)
  qed
  moreover have "\<not> ((0 \<le> i \<and> i \<le> 5) \<or> (10 \<le> i \<and> i < 2077))
                 \<longleftrightarrow> i < 0 \<or> (6 \<le> i \<and> i \<le> 9) \<or> 2077 \<le> i"
    by linarith
  ultimately show ?thesis using ok size by simp
qed

theorem decode_action_domain_witness:
  "(\<exists>r. decode_action 2076 = Inr r) \<and> decode_action 2077 = Inl ValueError
   \<and> decode_action (- 1) = Inl ValueError"
  using decode_action_domain [of 2076] decode_action_domain [of 2077]
    decode_action_domain [of "- 1"]
  by (simp add: get_action_space_size_def offset_values)

theorem decode_reserved_index_counterexample:
  "0 \<le> (6::int) \<and> 6 < get_action_space_size \<and> decode_action 6 = Inl ValueError"
  by (simp add: get_action_space_size_def offset_values decode_gap)

text \<open>
  Claim C3, as the code has it.  Whenever \<open>decode_action\<close> returns an action for an index,
  \<open>encode_action\<close> maps that action back to the index; this covers the indices 0 to 5 and 10
  to 2076.  For every documented action, decoding its encoding succeeds and gives an action
  that is semantically equal to it.
\<close>

theorem codec_round_trip:
  "(\<forall>i r. decode_action i = Inr r \<longrightarrow> encode_action r = Inr i)
   \<and> (\<forall>i. (0 \<le> i \<and> i \<le> 5) \<or> (10 \<le> i \<and> i < get_action_space_size)
          \<longrightarrow> encode_decode i = Inr i)
   \<and> (\<forall>a. documented_action a \<longrightarrow> (\<exists>r. decode_encode a = Inr r \<and> semantically_equal r a))"
proof -
  have "get_action_space_size = 2077"
    by (simp add: get_action_space_size_def offset_values)
  then have "\<forall>i. (0 \<le> i \<and> i \<le> 5) \<or> (10 \<le> i \<and> i < get_action_space_size)
          \<longrightarrow> encode_decode i = Inr i"
    using encode_decode_lower encode_decode_upper by simp
  then show ?thesis
    using encode_after_decode decode_after_encode by blast
qed

theorem codec_round_trip_witness:
  "encode_decode 2076 = Inr 2076
   \<and> documented_action (request PLAY_HAND [''card_indices'' \<mapsto> PList (map PInt [3, 1, 3])])
   \<and> (\<exists>r. decode_encode (request PLAY_HAND [''card_indices'' \<mapsto> PList (map PInt [3, 1, 3])]) = Inr r
          \<and> semantically_equal r
               (request PLAY_HAND [''card_indices'' \<mapsto> PList (map PInt [3, 1, 3])]))"
proof -
  have size: "get_action_space_size = 2077"
    by (simp add: get_action_space_size_def offset_values)
  have doc: "documented_action (request PLAY_HAND [''card_indices'' \<mapsto> PList (map PInt [3, 1, 3])])"
    unfolding documented_action_def request_def
    by (simp, rule exI [of _ "[3, 1, 3]"], simp)
  from codec_round_trip size doc show ?thesis by simp
qed

theorem round_trip_counterexample:
  "0 \<le> (6::int) \<and> (6::int) < 2073 \<and> encode_decode 6 = Inl ValueError \<and> encode_decode 6 \<noteq> Inr 6"
  by (simp add: encode_decode_def seq_def decode_gap)


lemma unknown_type_strings:
  assumes "s \<notin> range ActionType_value"
  shows "s \<noteq> ''SHOP_REROLL''" "s \<noteq> ''SHOP_END''" "s \<noteq> ''SKIP_BLIND''" "s \<noteq> ''SKIP_PACK''"
    "s \<noteq> ''SORT_HAND''" "s \<noteq> ''PLAY_HAND''" "s \<noteq> ''DISCARD''" "s \<noteq> ''SHOP_BUY''"
    "s \<noteq> ''SHOP_SELL_JOKER''" "s \<noteq> ''SELECT_PACK_ITEM''" "s \<noteq> ''SELECT_BLIND''"
proof -
  have neq: "s \<noteq> ActionType_value t" for t using assms by blast
  show "s \<noteq> ''SHOP_REROLL''" using neq [of SHOP_REROLL] by simp
  show "s \<noteq> ''SHOP_END''" using neq [of SHOP_END] by simp
  show "s \<noteq> ''SKIP_BLIND''" using neq [of SKIP_BLIND] by simp
  show "s \<noteq> ''SKIP_PACK''" using neq [of SKIP_PACK] by simp
  show "s \<noteq> ''SORT_HAND''" using neq [of SORT_HAND] by simp
  show "s \<noteq> ''PLAY_HAND''" using neq [of PLAY_HAND] by simp
  show "s \<noteq> ''DISCARD''" using neq [of DISCARD] by simp
  show "s \<noteq> ''SHOP_BUY''" using neq [of SHOP_BUY] by simp
  show "s \<noteq> ''SHOP_SELL_JOKER''" using neq [of SHOP_SELL_JOKER] by simp
  show "s \<noteq> ''SELECT_PACK_ITEM''" using neq [of SELECT_PACK_ITEM] by simp
  show "s \<noteq> ''SELECT_BLIND''" using neq [of SELECT_BLIND] by simp
qed

lemma encode_unknown_kind:
  assumes "type_string (rtype a) \<notin> range ActionType_value"
  shows "encode_action a = Inl ValueError"
  using unknown_type_strings [OF assms] by (simp add: encode_action_def)

lemma encode_missing_parameter:
  "params a ''mode'' = None \<Longrightarrow> rtype a = Enum SORT_HAND \<Longrightarrow> encode_action a = Inr 4"
  "params a ''card_indices'' = None \<Longrightarrow> rtype a = Enum PLAY_HAND
     \<Longrightarrow> encode_action a = Inr play_hand_offset"
  "params a ''card_indices'' = None \<Longrightarrow> rtype a = Enum DISCARD
     \<Longrightarrow> encode_action a = Inr discard_offset"
  "params a ''slot'' = None \<Longrightarrow> rtype a = Enum SHOP_BUY \<Longrightarrow> encode_action a = Inr shop_buy_offset"
  "params a ''joker_index'' = None \<Longrightarrow> rtype a = Enum SHOP_SELL_JOKER
     \<Longrightarrow> encode_action a = Inr sell_joker_offset"
  "params a ''choice_index'' = None \<Longrightarrow> rtype a = Enum SELECT_PACK_ITEM
     \<Longrightarrow> encode_action a = Inr pack_select_offset"
  "params a ''option'' = None \<Longrightarrow> rtype a = Enum SELECT_BLIND
     \<Longrightarrow> encode_action a = Inr blind_select_offset"
  by (simp_all add: encode_action_def dict_get_def upper_modes getitem_def simple_actions_values
        card_indices_to_bitmap_def)


text \<open>
  Claim C4, as the code has it.  \<open>encode_action\<close> raises ValueError when the type string of
  the action is not the value of one of the eleven kinds.  When the parameter of a kind is
  absent it does not raise: it encodes the action as if the parameter had its default (mode
  \<open>rank\<close>, no card positions, slot 1, joker index 1, choice index 1, option \<open>small\<close>), which
  gives the first index of the kind's region (index 4 for SORT\_HAND).
\<close>

theorem encode_errors_and_defaults:
  "(type_string (rtype a) \<notin> range ActionType_value \<longrightarrow> encode_action a = Inl ValueError)
   \<and> (rtype a = Enum SORT_HAND \<and> params a ''mode'' = None
        \<longrightarrow> encode_action a = encode_action (a\<lparr>params := (params a)(''mode'' \<mapsto> PStr ''rank'')\<rparr>)
            \<and> encode_action a = Inr 4)
   \<and> (rtype a = Enum PLAY_HAND \<and> params a ''card_indices'' = None
        \<longrightarrow> encode_action a = encode_action (a\<lparr>params := (params a)(''card_indices'' \<mapsto> PList [])\<rparr>)
            \<and> encode_action a = Inr play_hand_offset)
   \<and> (rtype a = Enum DISCARD \<and> params a ''card_indices'' = None
        \<longrightarrow> encode_action a = encode_action (a\<lparr>params := (params a)(''card_indices'' \<mapsto> PList [])\<rparr>)
            \<and> encode_action a = Inr discard_offset)
   \<and> (rtype a = Enum SHOP_BUY \<and> params a ''slot'' = None
        \<longrightarrow> encode_action a = encode_action (a\<lparr>params := (params a)(''slot'' \<mapsto> PInt 1)\<rparr>)
            \<and> encode_action a = Inr shop_buy_offset)
   \<and> (rtype a = Enum SHOP_SELL_JOKER \<and> params a ''joker_index'' = None
        \<longrightarrow> encode_action a = encode_action (a\<lparr>params := (params a)(''joker_index'' \<mapsto> PInt 1)\<rparr>)
            \<and> encode_action a = Inr sell_joker_offset)
   \<and> (rtype a = Enum SELECT_PACK_ITEM \<and> params a ''choice_index'' = None
        \<longrightarrow> encode_action a = encode_action (a\<lparr>params := (params a)(''choice_index'' \<mapsto> PInt 1)\<rparr>)
            \<and> encode_action a = Inr pack_select_offset)
   \<and> (rtype a = Enum SELECT_BLIND \<and> params a ''option'' = None
        \<longrightarrow> encode_action a = encode_action (a\<lparr>params := (params a)(''option'' \<mapsto> PStr ''small'')\<rparr>)
            \<and> encode_action a = Inr blind_select_offset)"
  by (intro conjI impI encode_unknown_kind; (elim conjE)?)
     (simp_all add: encode_missing_parameter,
      simp_all add: encode_action_def dict_get_def upper_modes getitem_def simple_actions_values
        card_indices_to_bitmap_def)

theorem encode_errors_and_defaults_witness:
  "encode_action \<lparr>rtype = Raw ''FLY'', params = Map.empty\<rparr> = Inl ValueError
   \<and> encode_action (request SELECT_PACK_ITEM Map.empty) = Inr 2069"
proof -
  have unknown: "type_string (rtype \<lparr>rtype = Raw ''FLY'', params = Map.empty\<rparr>)
                   \<notin> range ActionType_value"
  proof
    assume "type_string (rtype \<lparr>rtype = Raw ''FLY'', params = Map.empty\<rparr>)
              \<in> range ActionType_value"
    then obtain t where "''FLY'' = ActionType_value t" by auto
    then show False by (cases t) simp_all
  qed
  have absent: "rtype (request SELECT_PACK_ITEM Map.empty) = Enum SELECT_PACK_ITEM
                \<and> params (request SELECT_PACK_ITEM Map.empty) ''choice_index'' = None"
    by (simp add: request_def)
  from encode_errors_and_defaults [of "\<lparr>rtype = Raw ''FLY'', params = Map.empty\<rparr>"] unknown
  have "encode_action \<lparr>rtype = Raw ''FLY'', params = Map.empty\<rparr> = Inl ValueError"
    by blast
  moreover from encode_errors_and_defaults [of "request SELECT_PACK_ITEM Map.empty"] absent
  have "encode_action (request SELECT_PACK_ITEM Map.empty) = Inr pack_select_offset"
    by blast
  ultimately show ?thesis by (simp add: offset_values)
qed

theorem encode_missing_slot_counterexample:
  "params (request SHOP_BUY Map.empty) ''slot'' = None
   \<and> encode_action (request SHOP_BUY Map.empty) = Inr 2058"
  by (simp add: request_def encode_action_def dict_get_def offset_values)

section \<open>The tokenizer\<close>

lemma length_padded_blocks:
  assumes "\<And>x. x \<in> set xs \<Longrightarrow> length (f x) = w"
  shows "length (padded_blocks n w f xs) = n * w"
proof (induction n)
  case 0
  then show ?case by (simp add: padded_blocks_def)
next
  case (Suc n)
  then show ?case using assms by (simp add: padded_blocks_def)
qed

lemma padded_blocks_empty: "padded_blocks n w f [] = replicate (n * w) 0"
proof (induction n)
  case 0
  then show ?case by (simp add: padded_blocks_def)
next
  case (Suc n)
  then show ?case by (simp add: padded_blocks_def replicate_add [symmetric] del: replicate_add)
qed

lemma scalar_features_length: "scalar_features st = Inr v \<Longrightarrow> length v = 10"
  by (auto simp: scalar_features_def seq_def Let_def split: sum.splits)

lemma tokenize_state_length:
  assumes "tokenize_state rt st = Inr v"
  shows "length v = 136"
proof -
  from assms obtain sc where sc: "scalar_features st = Inr sc"
    by (auto simp: tokenize_state_def seq_def split: sum.splits)
  have "length (padded_blocks TOK_MAX_HAND_SIZE card_features (tokenize_card rt) (hand st)) = 80"
    by (subst length_padded_blocks)
       (simp_all add: tokenize_card_def Let_def TOK_MAX_HAND_SIZE_def card_features_def)
  moreover have "length (padded_blocks TOK_MAX_JOKERS 4 (tokenize_joker rt) (jokers st)) = 20"
    by (subst length_padded_blocks) (simp_all add: tokenize_joker_def Let_def TOK_MAX_JOKERS_def)
  moreover have
    "length (padded_blocks MAX_CONSUMABLES 2 (tokenize_consumable rt) (consumables st)) = 8"
    by (subst length_padded_blocks)
       (simp_all add: tokenize_consumable_def Let_def MAX_CONSUMABLES_def)
  moreover have
    "length (padded_blocks MAX_SHOP_ITEMS 3 (tokenize_shop_item rt (money st)) xs) = 18" for xs
    by (subst length_padded_blocks)
       (simp_all add: tokenize_shop_item_def Let_def MAX_SHOP_ITEMS_def)
  ultimately show ?thesis
    using assms sc scalar_features_length [OF sc]
    by (auto simp: tokenize_state_def seq_def Let_def)
qed

lemma tokenize_state_succeeds_iff:
  "(\<exists>v. tokenize_state rt st = Inr v)
     \<longleftrightarrow> (\<forall>b. blind st = Some b \<longrightarrow> chips_needed b \<noteq> None)"
  by (auto simp: tokenize_state_def scalar_features_def log_chips_def seq_def Let_def
        split: option.splits sum.splits)

lemma padded_blocks_split:
  "padded_blocks n w f xs
     = concat (map f (take n xs)) @ replicate ((n - length xs) * w) 0"
proof (induction n)
  case 0
  then show ?case by (simp add: padded_blocks_def)
next
  case (Suc n)
  have step: "padded_blocks (Suc n) w f xs
      = padded_blocks n w f xs @ (if n < length xs then f (xs ! n) else replicate w 0)"
    by (simp add: padded_blocks_def)
  show ?case
  proof (cases "n < length xs")
    case True
    then have "take (Suc n) xs = take n xs @ [xs ! n]" by (rule take_Suc_conv_app_nth)
    with True Suc step show ?thesis by simp
  next
    case False
    then have "Suc n - length xs = Suc (n - length xs)" by simp
    with False Suc step show ?thesis
      by (simp add: replicate_add [symmetric] del: replicate_add)
  qed
qed

lemma tokenize_state_blocks:
  assumes "tokenize_state rt st = Inr v"
  shows "\<exists>sc. scalar_features st = Inr sc \<and> length sc = 10 \<and>
           v = sc
             @ (concat (map (tokenize_card rt) (take 10 (hand st)))
                  @ replicate ((10 - length (hand st)) * 8) 0)
             @ (concat (map (tokenize_joker rt) (take 5 (jokers st)))
                  @ replicate ((5 - length (jokers st)) * 4) 0)
             @ (concat (map (tokenize_consumable rt) (take 4 (consumables st)))
                  @ replicate ((4 - length (consumables st)) * 2) 0)
             @ (concat (map (tokenize_shop_item rt (money st))
                          (take 6 (case shop st of Some sh \<Rightarrow> items sh | None \<Rightarrow> [])))
                  @ replicate ((6 - length (case shop st of Some sh \<Rightarrow> items sh | None \<Rightarrow> [])) * 3) 0)"
proof -
  from assms obtain sc where sc: "scalar_features st = Inr sc"
    by (auto simp: tokenize_state_def elim!: seqE)
  from scalar_features_length [OF sc] have "length sc = 10" .
  with assms sc show ?thesis
    by (simp add: tokenize_state_def seq_def Let_def padded_blocks_split
          TOK_MAX_HAND_SIZE_def card_features_def TOK_MAX_JOKERS_def MAX_CONSUMABLES_def
          MAX_SHOP_ITEMS_def)
qed

lemma obs_size_value: "get_observation_size = 136"
  by (simp add: get_observation_size_def obs_size_def TOK_MAX_HAND_SIZE_def card_features_def
        TOK_MAX_JOKERS_def MAX_CONSUMABLES_def MAX_SHOP_ITEMS_def)


section \<open>The environment step\<close>

lemma submit_answered:
  assumes "execute_action bridge req = Inr result"
    and "(result_ok result \<and> result_state result \<noteq> None)
         \<or> (\<exists>s l. get_state bridge = Inr s \<and> get_legal_actions bridge = Inr l)"
  shows "\<exists>env1 new. submit bridge env req = (env1, None) \<and> current_state env1 = Some new
           \<and> step_count env1 = step_count env \<and> max_steps env1 = max_steps env"
proof (cases "result_ok result \<and> result_state result \<noteq> None")
  case True
  then show ?thesis using assms(1) by (auto simp: submit_def)
next
  case False
  with assms(2) obtain s l where "get_state bridge = Inr s" "get_legal_actions bridge = Inr l"
    by blast
  with False assms(1) show ?thesis by (simp add: submit_def)
qed

text \<open>
  When the bridge answers, the \<^verbatim>\<open>try\<close> block stores the snapshot of the answer: the state of
  the result when the result is ok and carries one, the re-fetched state otherwise.
\<close>

lemma submit_adopts:
  assumes "execute_action bridge req = Inr result"
    and "(result_ok result \<and> result_state result = Some new)
         \<or> (\<not> (result_ok result \<and> result_state result \<noteq> None)
             \<and> get_state bridge = Inr new \<and> get_legal_actions bridge = Inr l)"
  shows "submit bridge env req
           = (env\<lparr>current_state := Some new,
                   current_legal := (if result_ok result \<and> result_state result \<noteq> None
                                     then result_legal result else Some l)\<rparr>,
              None)"
proof (cases "result_ok result \<and> result_state result \<noteq> None")
  case True
  with assms(2) have "result_state result = Some new" by blast
  with True assms(1) show ?thesis by (simp add: submit_def)
next
  case False
  with assms(2) have "get_state bridge = Inr new" "get_legal_actions bridge = Inr l"
    by blast+
  with False assms(1) show ?thesis by (auto simp add: submit_def)
qed

lemma step_answered:
  assumes dec: "decode_action action = Inr req"
    and sub: "submit bridge (env\<lparr>step_count := step_count env + 1\<rparr>) req = (env1, None)"
    and cur: "current_state env1 = Some new"
    and ret: "step rt bridge env action = (env', Inr (obs, reward, terminated, truncated, info))"
  shows "env' = env1\<lparr>episode_reward := episode_reward env1 + compute_reward (current_state env) new\<rparr>
         \<and> reward = compute_reward (current_state env) new
         \<and> terminated = is_terminal env' new
         \<and> truncated = (max_steps env' \<le> step_count env')"
  using ret unfolding step_def Let_def
  by (auto simp add: dec sub cur seq_def split: sum.splits)



text \<open>
  A \<open>step\<close> call that returns a five-tuple either went through the handler of the
  connectivity failure or had every bridge call answered.
\<close>

lemma step_returned_cases:
  assumes "step rt bridge env action = (env', Inr (obs, reward, terminated, truncated, info))"
  shows "\<exists>req. decode_action action = Inr req
           \<and> ((\<exists>msg. snd (submit bridge (env\<lparr>step_count := step_count env + 1\<rparr>) req)
                        = Some (BalatroConnectionError msg)
                  \<and> reward = - 100 \<and> terminated \<and> \<not> truncated)
              \<or> (\<exists>result new l. execute_action bridge req = Inr result
                    \<and> ((result_ok result \<and> result_state result = Some new)
                        \<or> (\<not> (result_ok result \<and> result_state result \<noteq> None)
                            \<and> get_state bridge = Inr new \<and> get_legal_actions bridge = Inr l))))"
  using assms unfolding step_def Let_def submit_def
  by (auto simp: seq_def split: sum.splits prod.splits option.splits py_error.splits if_splits)

lemma get_info_independent:
  assumes "get_info env = Inr info0"
  shows "\<exists>info. get_info (env\<lparr>step_count := n, connected := c\<rparr>) = Inr info"
  using assms unfolding get_info_def Let_def
  by (auto simp: seq_def split: option.splits sum.splits)


lemma example_step:
  "\<exists>obs info.
     step example_runtime answering_bridge (init_env limit True) 0
       = (\<lparr>current_state = Some example_state, current_legal = None, step_count = 1,
            episode_reward = 0, prev_money = 0, prev_chips = 0, connected = True,
            max_steps = limit\<rparr>,
          Inr (obs, 0, limit \<le> 1, limit \<le> 1, info))"
  unfolding step_def Let_def
  by (simp add: decode_simple init_env_def answering_bridge_def submit_def example_state_def
        compute_reward_def is_terminal_def get_obs_def get_info_def tokenize_state_def
        scalar_features_def log_chips_def seq_def)


lemma step_returns_renderable:
  assumes "step rt bridge env action = (env', Inr out)"
  shows "(\<exists>obs. get_obs rt env' = Inr obs) \<and> (\<exists>info. get_info env' = Inr info)"
  using assms unfolding step_def Let_def
  by (auto simp: seq_def split: sum.splits prod.splits option.splits py_error.splits)

text \<open>
  The observation and the info can be computed in the environment that \<^verbatim>\<open>__init__\<close> leaves
  and in the environment that a returning \<^verbatim>\<open>reset\<close> or \<^verbatim>\<open>step\<close> leaves.
\<close>

lemma init_renderable: "renderable rt (init_env limit wait)"
  by (simp add: renderable_def init_env_def get_obs_def get_info_def)

lemma reset_finish_renderable:
  assumes "reset_finish rt env st = (env', Inr out)"
  shows "renderable rt env'"
  using assms unfolding reset_finish_def Let_def renderable_def
  by (auto elim!: seqE)

lemma reset_returns_renderable:
  assumes "reset rt bridge env seed = (env', Inr out)"
  shows "renderable rt env'"
  using assms unfolding reset_def Let_def
  by (auto split: if_splits sum.splits prod.splits py_error.splits
        dest: reset_finish_renderable)

lemma step_keeps_renderable:
  assumes "step rt bridge env action = (env', Inr out)"
  shows "renderable rt env'"
  using step_returns_renderable [OF assms] by (simp add: renderable_def)

text \<open>
  The handler of the connectivity failure.  When the index decodes and the submission of
  the action raises \<open>BalatroConnectionError\<close>, in an environment whose observation and info
  can be computed, \<open>step\<close> returns the five-tuple with the observation of the stored
  snapshot, reward \<open>-100\<close>, \<open>terminated\<close> true, \<open>truncated\<close> false and the message of the
  exception under \<open>error\<close> in the info, and the step counter is one more than before.
\<close>

lemma step_connection_lost_renderable:
  assumes "decode_action action = Inr req"
    and "execute_action bridge req = Inl (BalatroConnectionError msg)"
    and "renderable rt env"
  shows "\<exists>env' obs info.
           step rt bridge env action = (env', Inr (obs, - 100, True, False, info))
           \<and> get_obs rt env = Inr obs
           \<and> info ''error'' = Some (IStr msg)
           \<and> step_count env' = step_count env + 1"
proof -
  let ?env = "env\<lparr>step_count := step_count env + 1\<rparr>"
  let ?env2 = "env\<lparr>step_count := step_count env + 1, connected := False\<rparr>"
  from assms(3) obtain obs info0 where
    obs0: "get_obs rt env = Inr obs" and info0: "get_info env = Inr info0"
    by (auto simp: renderable_def)
  have sub: "submit bridge ?env req = (?env, Some (BalatroConnectionError msg))"
    using assms(2) by (simp add: submit_def)
  from get_info_independent [OF info0] obtain info where
    info: "get_info ?env2 = Inr info" by blast
  have obs: "get_obs rt ?env2 = Inr obs" using obs0 by (simp add: get_obs_def)
  have "step rt bridge env action
          = (?env2, Inr (obs, - 100, True, False, info(''error'' \<mapsto> IStr msg)))"
    unfolding step_def Let_def by (simp add: assms(1) sub info obs seq_def)
  with obs0 show ?thesis by simp
qed

lemma step_connection_lost_example:
  "\<exists>env' obs info.
     step example_runtime unreachable_bridge (init_env 5 True) 0
       = (env', Inr (obs, - 100, True, False, info))
     \<and> get_obs example_runtime (init_env 5 True) = Inr obs
     \<and> info ''error'' = Some (IStr ''refused'')
     \<and> step_count env' = step_count (init_env 5 True) + 1"
proof -
  have dec: "decode_action 0 = Inr (request SHOP_REROLL Map.empty)"
    by (simp add: decode_simple)
  have exe: "execute_action unreachable_bridge (request SHOP_REROLL Map.empty)
      = Inl (BalatroConnectionError ''refused'')"
    by (simp add: unreachable_bridge_def)
  from step_connection_lost_renderable [OF dec exe init_renderable] show ?thesis .
qed

text \<open>
  The handler computes the observation of whatever snapshot the environment holds.  A
  snapshot with a blind whose \<^verbatim>\<open>chips_needed\<close> is \<^verbatim>\<open>None\<close> is stored by a \<open>reset\<close> before the
  call raises, and by the re-fetch of a \<open>step\<close> before the fetch of the legal actions fails;
  with such a snapshot the handler raises TypeError.
\<close>

lemma state_without_chips_needed_raises:
  "tokenize_state rt state_without_chips_needed = Inl TypeError"
  by (simp add: state_without_chips_needed_def tokenize_state_def scalar_features_def
        log_chips_def seq_def)

lemma reset_stores_unrenderable:
  "reset example_runtime lost_after_reset_bridge (init_env 5 True) None
     = (\<lparr>current_state = Some state_without_chips_needed,
          current_legal = Some \<lparr>actions = []\<rparr>, step_count = 0, episode_reward = 0,
          prev_money = 0, prev_chips = 0, connected = True, max_steps = 5\<rparr>,
        Inl TypeError)"
  by (simp add: reset_def reset_finish_def lost_after_reset_bridge_def init_env_def
        get_obs_def state_without_chips_needed_raises seq_def,
      simp add: state_without_chips_needed_def)

lemma step_after_failed_reset:
  "step example_runtime lost_after_reset_bridge
     \<lparr>current_state = Some state_without_chips_needed,
       current_legal = Some \<lparr>actions = []\<rparr>, step_count = 0, episode_reward = 0,
       prev_money = 0, prev_chips = 0, connected = True, max_steps = 5\<rparr> 0
     = (\<lparr>current_state = Some state_without_chips_needed,
          current_legal = Some \<lparr>actions = []\<rparr>, step_count = 1, episode_reward = 0,
          prev_money = 0, prev_chips = 0, connected = False, max_steps = 5\<rparr>,
        Inl TypeError)"
  unfolding step_def Let_def
  by (simp add: decode_simple submit_def lost_after_reset_bridge_def get_info_def
        get_legal_action_mask_def get_obs_def state_without_chips_needed_raises seq_def)

lemma step_refetch_lost:
  "step example_runtime lost_during_refetch_bridge (init_env 5 True) 0
     = (\<lparr>current_state = Some state_without_chips_needed,
          current_legal = None, step_count = 1, episode_reward = 0,
          prev_money = 0, prev_chips = 0, connected = False, max_steps = 5\<rparr>,
        Inl TypeError)"
  unfolding step_def Let_def
  by (simp add: decode_simple submit_def lost_during_refetch_bridge_def init_env_def
        get_info_def get_obs_def state_without_chips_needed_raises seq_def)

section \<open>Claims about the episode controller\<close>

text \<open>
  Claim C5, as the code has it.  Take a \<open>step\<close> call that returns and whose bridge calls all
  answered, and let \<open>new\<close> be the snapshot of the answer: the state of the result when the
  result is ok and carries one, the re-fetched state otherwise.  Then the environment holds
  \<open>new\<close> (and the legal actions of the same answer), the reward is computed from the previous
  snapshot and \<open>new\<close>, and the \<open>terminated\<close> flag is true exactly when the phase of \<open>new\<close> is
  MENU or SPLASH, or the incremented step counter has reached \<open>max_steps\<close>, or \<open>new\<close> carries
  a non-empty error; the \<open>truncated\<close> flag is true exactly when the incremented step counter
  has reached \<open>max_steps\<close>.  So \<open>truncated\<close> implies \<open>terminated\<close>: the step budget alone sets
  both.
\<close>

theorem step_flags:
  assumes "decode_action action = Inr req"
    and "execute_action bridge req = Inr result"
    and "(result_ok result \<and> result_state result = Some new)
         \<or> (\<not> (result_ok result \<and> result_state result \<noteq> None)
             \<and> get_state bridge = Inr new \<and> get_legal_actions bridge = Inr l)"
    and "step rt bridge env action = (env', Inr (obs, reward, terminated, truncated, info))"
  shows "current_state env' = Some new
         \<and> current_legal env' = (if result_ok result \<and> result_state result \<noteq> None
                                  then result_legal result else Some l)
         \<and> (terminated \<longleftrightarrow> phase new \<in> {MENU, SPLASH} \<or> max_steps env \<le> step_count env + 1
                             \<or> truthy_str (error new))
         \<and> (truncated \<longleftrightarrow> max_steps env \<le> step_count env + 1)
         \<and> (truncated \<longrightarrow> terminated)
         \<and> reward = compute_reward (current_state env) new
         \<and> step_count env' = step_count env + 1"
proof -
  let ?env = "env\<lparr>step_count := step_count env + 1\<rparr>"
  let ?env1 = "?env\<lparr>current_state := Some new,
                   current_legal := (if result_ok result \<and> result_state result \<noteq> None
                                     then result_legal result else Some l)\<rparr>"
  have sub: "submit bridge ?env req = (?env1, None)"
    using assms(2,3) by (rule submit_adopts)
  have cur: "current_state ?env1 = Some new" by simp
  from step_answered [OF assms(1) sub cur assms(4)] have
    env': "env' = ?env1\<lparr>episode_reward := episode_reward ?env1 + compute_reward (current_state env) new\<rparr>"
    and r: "reward = compute_reward (current_state env) new"
    and t: "terminated = is_terminal env' new" and tr: "truncated = (max_steps env' \<le> step_count env')"
    by simp_all
  from env' have facts: "current_state env' = Some new"
    "current_legal env' = (if result_ok result \<and> result_state result \<noteq> None
                                  then result_legal result else Some l)"
    "step_count env' = step_count env + 1" "max_steps env' = max_steps env" by simp_all
  from t tr facts(3,4) have flags:
    "terminated \<longleftrightarrow> phase new \<in> {MENU, SPLASH} \<or> max_steps env \<le> step_count env + 1
                             \<or> truthy_str (error new)"
    "truncated \<longleftrightarrow> max_steps env \<le> step_count env + 1"
    by (auto simp: is_terminal_def)
  from flags have "truncated \<longrightarrow> terminated" by blast
  with facts(1,2,3) flags r show ?thesis by blast
qed

theorem step_flags_witness:
  "\<exists>env' obs reward terminated truncated info.
     step example_runtime answering_bridge (init_env 5 True) 0
       = (env', Inr (obs, reward, terminated, truncated, info))
     \<and> current_state env' = Some example_state
     \<and> \<not> terminated \<and> \<not> truncated \<and> reward = 0 \<and> step_count env' = 1"
proof -
  from example_step [of 5] obtain obs info where
    st: "step example_runtime answering_bridge (init_env 5 True) 0
       = (\<lparr>current_state = Some example_state, current_legal = None, step_count = 1,
            episode_reward = 0, prev_money = 0, prev_chips = 0, connected = True,
            max_steps = 5\<rparr>,
          Inr (obs, 0, False, False, info))"
    by auto
  have dec: "decode_action 0 = Inr (request SHOP_REROLL Map.empty)"
    by (simp add: decode_simple)
  have exe: "execute_action answering_bridge (request SHOP_REROLL Map.empty)
      = Inr \<lparr>result_ok = True, result_error = None,
              result_state = Some example_state, result_legal = None\<rparr>"
    by (simp add: answering_bridge_def)
  have adopt: "(result_ok \<lparr>result_ok = True, result_error = None,
              result_state = Some example_state, result_legal = None\<rparr>
         \<and> result_state \<lparr>result_ok = True, result_error = None,
              result_state = Some example_state, result_legal = None\<rparr> = Some example_state)
      \<or> (\<not> (result_ok \<lparr>result_ok = True, result_error = None,
              result_state = Some example_state, result_legal = None\<rparr>
             \<and> result_state \<lparr>result_ok = True, result_error = None,
              result_state = Some example_state, result_legal = None\<rparr> \<noteq> None)
          \<and> get_state answering_bridge = Inr example_state
          \<and> get_legal_actions answering_bridge = Inr \<lparr>actions = []\<rparr>)"
    by simp
  from step_flags [OF dec exe adopt st] show ?thesis
    using st by (auto simp add: init_env_def)
qed

theorem terminated_by_step_budget_counterexample:
  "phase example_state \<notin> {MENU, SPLASH} \<and> error example_state = None
   \<and> current_state (fst (step example_runtime answering_bridge (init_env 1 True) 0))
       = Some example_state
   \<and> map_sum id (fst \<circ> snd \<circ> snd)
        (snd (step example_runtime answering_bridge (init_env 1 True) 0)) = Inr True"
proof -
  from example_step [of 1] obtain obs info where
    "step example_runtime answering_bridge (init_env 1 True) 0
       = (\<lparr>current_state = Some example_state, current_legal = None, step_count = 1,
            episode_reward = 0, prev_money = 0, prev_chips = 0, connected = True,
            max_steps = 1\<rparr>,
          Inr (obs, 0, True, True, info))"
    by auto
  then show ?thesis by (simp add: example_state_def)
qed


text \<open>
  Claim C6 fails when the environment holds a snapshot with a blind whose \<^verbatim>\<open>chips_needed\<close> is
  \<^verbatim>\<open>None\<close>: the handler of the connectivity failure calls \<^verbatim>\<open>_get_obs\<close>, and \<open>step\<close> raises
  TypeError instead of returning the five-tuple.  Two runs: after a \<open>reset\<close> that stored such
  a snapshot (and raised), the index 0 decodes, the submission raises
  \<open>BalatroConnectionError\<close> and \<open>step\<close> raises TypeError; in the environment that \<^verbatim>\<open>__init__\<close>
  leaves, the bridge rejects the action, answers the re-fetch of the state with such a
  snapshot and cannot be reached for the legal actions, and \<open>step\<close> raises TypeError.  (In
  an environment whose observation and info can be computed the five-tuple is returned,
  see \<open>step_connection_lost_renderable\<close>.)
\<close>

theorem step_connection_lost_raises:
  "decode_action 0 = Inr (request SHOP_REROLL Map.empty)
   \<and> execute_action lost_after_reset_bridge (request SHOP_REROLL Map.empty)
       = Inl (BalatroConnectionError ''refused'')
   \<and> reset example_runtime lost_after_reset_bridge (init_env 5 True) None
       = (\<lparr>current_state = Some state_without_chips_needed,
            current_legal = Some \<lparr>actions = []\<rparr>, step_count = 0, episode_reward = 0,
            prev_money = 0, prev_chips = 0, connected = True, max_steps = 5\<rparr>,
          Inl TypeError)
   \<and> step example_runtime lost_after_reset_bridge
         \<lparr>current_state = Some state_without_chips_needed,
           current_legal = Some \<lparr>actions = []\<rparr>, step_count = 0, episode_reward = 0,
           prev_money = 0, prev_chips = 0, connected = True, max_steps = 5\<rparr> 0
       = (\<lparr>current_state = Some state_without_chips_needed,
            current_legal = Some \<lparr>actions = []\<rparr>, step_count = 1, episode_reward = 0,
            prev_money = 0, prev_chips = 0, connected = False, max_steps = 5\<rparr>,
          Inl TypeError)
   \<and> get_legal_actions lost_during_refetch_bridge = Inl (BalatroConnectionError ''refused'')
   \<and> step example_runtime lost_during_refetch_bridge (init_env 5 True) 0
       = (\<lparr>current_state = Some state_without_chips_needed,
            current_legal = None, step_count = 1, episode_reward = 0,
            prev_money = 0, prev_chips = 0, connected = False, max_steps = 5\<rparr>,
          Inl TypeError)"
  using reset_stores_unrenderable step_after_failed_reset step_refetch_lost
  by (simp add: decode_simple lost_after_reset_bridge_def lost_during_refetch_bridge_def)

text \<open>
  Claim C8.  For a previous snapshot with money 10, no chips scored at the blind named
  \<open>Small Blind\<close>, ante 1 and phase SELECTING\_HAND, and a new snapshot with money 15, 2000
  chips scored at the same blind, ante 1 and phase HAND\_PLAYED, the reward is the money
  delta 5 plus \<open>0.00001 * 2000\<close>, that is 5.02, with no bonus and no penalty; and without a
  previous snapshot the reward is 0.
\<close>

theorem reward_scenario:
  assumes "money prev = 10" "blind prev = Some bp" "chips_scored bp = 0"
    "blind_name bp = Some ''Small Blind''" "ante prev = 1" "phase prev = SELECTING_HAND"
    and "money new = 15" "blind new = Some bn" "chips_scored bn = 2000"
    "blind_name bn = Some ''Small Blind''" "ante new = 1" "phase new = HAND_PLAYED"
  shows "compute_reward (Some prev) new = 5 + 0.00001 * 2000
         \<and> compute_reward (Some prev) new = 5.02
         \<and> compute_reward None other = 0"
  using assms by (simp add: compute_reward_def Let_def)

theorem reward_scenario_witness:
  "compute_reward
     (Some \<lparr>phase = SELECTING_HAND, error = None, round_num = 1, ante = 1, money = 10,
            hands_remaining = 4, discards_remaining = 3,
            blind = Some \<lparr>blind_name = Some ''Small Blind'', chips_needed = Some 300,
                           chips_scored = 0, boss = False\<rparr>,
            hand = [], jokers = [], consumables = [], shop = None,
            deck_counts = \<lparr>deck_size = 44, discard_size = 0\<rparr>\<rparr>)
     \<lparr>phase = HAND_PLAYED, error = None, round_num = 1, ante = 1, money = 15,
       hands_remaining = 3, discards_remaining = 3,
       blind = Some \<lparr>blind_name = Some ''Small Blind'', chips_needed = Some 300,
                      chips_scored = 2000, boss = False\<rparr>,
       hand = [], jokers = [], consumables = [], shop = None,
       deck_counts = \<lparr>deck_size = 39, discard_size = 5\<rparr>\<rparr>
   = 5.02"
  using reward_scenario
    [of "\<lparr>phase = SELECTING_HAND, error = None, round_num = 1, ante = 1, money = 10,
            hands_remaining = 4, discards_remaining = 3,
            blind = Some \<lparr>blind_name = Some ''Small Blind'', chips_needed = Some 300,
                           chips_scored = 0, boss = False\<rparr>,
            hand = [], jokers = [], consumables = [], shop = None,
            deck_counts = \<lparr>deck_size = 44, discard_size = 0\<rparr>\<rparr>"
        "\<lparr>blind_name = Some ''Small Blind'', chips_needed = Some 300,
                           chips_scored = 0, boss = False\<rparr>"
        "\<lparr>phase = HAND_PLAYED, error = None, round_num = 1, ante = 1, money = 15,
       hands_remaining = 3, discards_remaining = 3,
       blind = Some \<lparr>blind_name = Some ''Small Blind'', chips_needed = Some 300,
                      chips_scored = 2000, boss = False\<rparr>,
       hand = [], jokers = [], consumables = [], shop = None,
       deck_counts = \<lparr>deck_size = 39, discard_size = 5\<rparr>\<rparr>"
       "\<lparr>blind_name = Some ''Small Blind'', chips_needed = Some 300,
                      chips_scored = 2000, boss = False\<rparr>"]
  by simp

section \<open>Claims about the featurizer\<close>

text \<open>
  Claim C9 fails on a snapshot that the schema admits: with a blind whose \<open>chips_needed\<close>
  is \<^verbatim>\<open>None\<close>, \<open>tokenize_state\<close> raises TypeError at \<^verbatim>\<open>max(chips_needed, 1)\<close> and yields no
  vector.  (On every other snapshot the model, in which floats are reals and the division of
  an integer never overflows, returns a vector of length 136 in which the blocks of absent
  items are zero, see \<open>tokenize_state_succeeds_iff\<close>, \<open>tokenize_state_length\<close> and
  \<open>tokenize_state_blocks\<close>.)
\<close>

theorem tokenize_state_fails_without_chips_needed:
  "tokenize_state rt
     \<lparr>phase = SELECTING_HAND, error = None, round_num = 0, ante = 0, money = 0,
       hands_remaining = 0, discards_remaining = 0,
       blind = Some \<lparr>blind_name = Some ''Small Blind'', chips_needed = None,
                      chips_scored = 0, boss = False\<rparr>,
       hand = [], jokers = [], consumables = [], shop = None,
       deck_counts = \<lparr>deck_size = 0, discard_size = 0\<rparr>\<rparr>
   = Inl TypeError"
  by (simp add: tokenize_state_def scalar_features_def log_chips_def seq_def)

section \<open>The legality mask\<close>

lemma marked_refl: "marked msk {} msk"
  by (simp add: marked_def)

lemma marked_trans:
  "marked msk S msk1 \<Longrightarrow> marked msk1 T msk2 \<Longrightarrow> marked msk (S \<union> T) msk2"
  by (auto simp: marked_def)

lemma marked_cong: "marked msk S msk' \<Longrightarrow> S = T \<Longrightarrow> marked msk T msk'"
  by simp

lemma set_true_marked:
  assumes "set_true msk i = Inr msk'" "0 \<le> i"
  shows "marked msk {i} msk'"
proof -
  from assms have lt: "i < int (length msk)" and eq: "msk' = msk[nat i := True]"
    by (auto simp: set_true_def Let_def split: if_splits)
  have "(msk[nat i := True]) ! j \<longleftrightarrow> msk ! j \<or> int j = i" if "j < length msk" for j
  proof -
    have "nat i < length msk" using lt assms(2) by linarith
    moreover have "int j = i \<longleftrightarrow> nat i = j" using assms(2) by linarith
    ultimately show ?thesis using that by (simp add: nth_list_update)
  qed
  then show ?thesis by (simp add: marked_def eq)
qed

lemma set_true_succeeds:
  "0 \<le> i \<Longrightarrow> i < int (length msk) \<Longrightarrow> \<exists>msk'. set_true msk i = Inr msk'"
  by (simp add: set_true_def)

lemma mark_combos_marked:
  assumes "mark_combos off combos msk = Inr msk'" "0 \<le> off"
  shows "marked msk {off + b | b. \<exists>c \<in> set combos. card_indices_to_bitmap (PList c) = Inr b} msk'"
  using assms(1)
proof (induction combos arbitrary: msk)
  case Nil
  then show ?case by (simp add: marked_refl)
next
  case (Cons combo rest)
  from Cons.prems obtain bitmap msk1 where
    b: "card_indices_to_bitmap (PList combo) = Inr bitmap" and
    s: "set_true msk (off + bitmap) = Inr msk1" and
    r: "mark_combos off rest msk1 = Inr msk'"
    by (auto elim!: seqE)
  from b have "0 \<le> bitmap" using loop_bound [of combo 0 bitmap]
    by (simp add: card_indices_to_bitmap_def)
  with assms(2) have "0 \<le> off + bitmap" by simp
  from set_true_marked [OF s this] Cons.IH [OF r]
  have "marked msk ({off + bitmap} \<union>
          {off + b | b. \<exists>c \<in> set rest. card_indices_to_bitmap (PList c) = Inr b}) msk'"
    by (rule marked_trans)
  then show ?case
    by (rule marked_cong) (use b in auto)
qed

lemma mark_sizes_marked:
  assumes "mark_sizes off pool sizes msk = Inr msk'" "0 \<le> off"
  shows "marked msk
           {off + b | b. \<exists>sz \<in> set sizes. \<exists>c \<in> set (combinations pool (nat sz)).
                           card_indices_to_bitmap (PList c) = Inr b} msk'
         \<and> (\<forall>sz \<in> set sizes. 0 \<le> sz)"
  using assms(1)
proof (induction sizes arbitrary: msk)
  case Nil
  then show ?case by (simp add: marked_refl)
next
  case (Cons sz rest)
  from Cons.prems have nonneg: "0 \<le> sz" by (simp split: if_splits)
  with Cons.prems obtain msk1 where
    c: "mark_combos off (combinations pool (nat sz)) msk = Inr msk1" and
    r: "mark_sizes off pool rest msk1 = Inr msk'"
    by (auto elim!: seqE)
  from Cons.IH [OF r] have
    ih: "marked msk1 {off + b | b. \<exists>sz \<in> set rest. \<exists>c \<in> set (combinations pool (nat sz)).
                           card_indices_to_bitmap (PList c) = Inr b} msk'"
    and ih2: "\<forall>sz \<in> set rest. 0 \<le> sz" by simp_all
  from mark_combos_marked [OF c assms(2)] ih
  have "marked msk
          ({off + b | b. \<exists>c \<in> set (combinations pool (nat sz)).
                           card_indices_to_bitmap (PList c) = Inr b}
           \<union> {off + b | b. \<exists>sz \<in> set rest. \<exists>c \<in> set (combinations pool (nat sz)).
                           card_indices_to_bitmap (PList c) = Inr b}) msk'"
    by (rule marked_trans)
  then have "marked msk
           {off + b | b. \<exists>sz \<in> set (sz # rest). \<exists>c \<in> set (combinations pool (nat sz)).
                           card_indices_to_bitmap (PList c) = Inr b} msk'"
    by (rule marked_cong) auto
  with nonneg ih2 show ?case by simp
qed

lemma bitmap_range:
  assumes "card_indices_to_bitmap v = Inr b"
  shows "0 \<le> b \<and> b < 1024"
proof -
  from assms obtain xs where "card_indices_loop xs 0 = Inr b"
    by (auto simp: card_indices_to_bitmap_def split: sum.splits)
  from loop_bound [OF this] show ?thesis by simp
qed

lemma mark_card_selections_exact:
  assumes "mark_card_selections off ci hs msk = Inr msk'" "0 \<le> off"
    and "dict_get ci ''available'' (PList (map PInt [1..hs])) = PList pool"
    and "dict_get ci ''min_select'' (PInt 1) = PInt lo"
    and "dict_get ci ''max_select'' (PInt 5) = PInt hi"
  shows "marked msk
           {off + b | b. \<exists>sz \<in> {lo..min hi (int (length pool))}.
                           \<exists>c \<in> set (combinations pool (nat sz)).
                             card_indices_to_bitmap (PList c) = Inr b} msk'
         \<and> (\<forall>sz \<in> {lo..min hi (int (length pool))}. 0 \<le> sz)"
proof -
  from assms(1) have "mark_sizes off pool [lo..min hi (int (length pool))] msk = Inr msk'"
    unfolding mark_card_selections_def Let_def assms(3,4,5) by (simp add: seq_def)
  from mark_sizes_marked [OF this assms(2)] show ?thesis by simp
qed

lemma mark_card_selections_region:
  assumes "mark_card_selections off ci hs msk = Inr msk'" "0 \<le> off"
  shows "\<exists>S. marked msk S msk' \<and> S \<subseteq> {off..<off + 1024}"
proof -
  let ?av = "dict_get ci ''available'' (PList (map PInt [1..hs]))"
  from assms(1) obtain n lo hi pool where
    "py_len ?av = Inr n" "dict_get ci ''min_select'' (PInt 1) = PInt lo"
    "dict_get ci ''max_select'' (PInt 5) = PInt hi" "py_iter ?av = Inr pool"
    "mark_sizes off pool [lo..min hi n] msk = Inr msk'"
    unfolding mark_card_selections_def Let_def
    by (auto elim!: seqE split: pyval.splits)
  from mark_sizes_marked [OF this(5) assms(2)] have
    "marked msk {off + b | b. \<exists>sz \<in> set [lo..min hi n]. \<exists>c \<in> set (combinations pool (nat sz)).
                           card_indices_to_bitmap (PList c) = Inr b} msk'"
    by simp
  moreover have "{off + b | b. \<exists>sz \<in> set [lo..min hi n]. \<exists>c \<in> set (combinations pool (nat sz)).
                           card_indices_to_bitmap (PList c) = Inr b} \<subseteq> {off..<off + 1024}"
    using bitmap_range by auto
  ultimately show ?thesis by blast
qed

lemma mark_selection_action_region:
  assumes "mark_selection_action off ps hs msk = Inr msk'" "0 \<le> off"
  shows "\<exists>S. marked msk S msk' \<and> S \<subseteq> {off..<off + 1024}"
proof (cases "card_indices ps")
  case None
  with assms(1) have "msk' = msk" by (simp add: mark_selection_action_def)
  then show ?thesis using marked_refl by blast
next
  case (Some ci)
  show ?thesis
  proof (cases "ci = Map.empty")
    case True
    with Some assms(1) have "msk' = msk" by (simp add: mark_selection_action_def)
    then show ?thesis using marked_refl by blast
  next
    case False
    with Some assms(1) have "mark_card_selections off ci hs msk = Inr msk'"
      by (simp add: mark_selection_action_def)
    then show ?thesis using assms(2) by (rule mark_card_selections_region)
  qed
qed

lemma mark_slot_region:
  assumes "mark_slot off bound v msk = Inr msk'" "0 \<le> off"
  shows "\<exists>S. marked msk S msk' \<and> S \<subseteq> {off..<off + bound}"
proof (cases "\<exists>k. v = Some k \<and> 1 \<le> k \<and> k \<le> bound")
  case True
  then obtain k where k: "v = Some k" "1 \<le> k" "k \<le> bound" by blast
  with assms(1) have s: "set_true msk (off + k - 1) = Inr msk'"
    by (simp add: mark_slot_def)
  from k assms(2) have "0 \<le> off + k - 1" by simp
  from set_true_marked [OF s this] have "marked msk {off + k - 1} msk'" .
  moreover have "{off + k - 1} \<subseteq> {off..<off + bound}" using k by simp
  ultimately show ?thesis by blast
next
  case False
  with assms(1) have "msk' = msk"
    by (auto simp: mark_slot_def split: option.splits if_splits)
  then show ?thesis using marked_refl by blast
qed

lemma mark_simple_marked:
  assumes "mark_simple key msk = Inr msk'" "simple_actions key = Some i" "0 \<le> i"
  shows "marked msk {i} msk'"
proof -
  from assms(1,2) have "set_true msk i = Inr msk'"
    by (simp add: mark_simple_def getitem_def seq_def)
  then show ?thesis using assms(3) by (rule set_true_marked)
qed

lemma decode_type_simple:
  "\<exists>r. decode_action 0 = Inr r \<and> type_string (rtype r) = ''SHOP_REROLL''"
  "\<exists>r. decode_action 1 = Inr r \<and> type_string (rtype r) = ''SHOP_END''"
  "\<exists>r. decode_action 2 = Inr r \<and> type_string (rtype r) = ''SKIP_BLIND''"
  "\<exists>r. decode_action 3 = Inr r \<and> type_string (rtype r) = ''SKIP_PACK''"
  "\<exists>r. decode_action 4 = Inr r \<and> type_string (rtype r) = ''SORT_HAND''"
  "\<exists>r. decode_action 5 = Inr r \<and> type_string (rtype r) = ''SORT_HAND''"
  by (simp_all add: decode_simple request_def)

lemma decode_type_region:
  "i \<in> {play_hand_offset..<play_hand_offset + 1024}
     \<Longrightarrow> \<exists>r. decode_action i = Inr r \<and> type_string (rtype r) = ''PLAY_HAND''"
  "i \<in> {discard_offset..<discard_offset + 1024}
     \<Longrightarrow> \<exists>r. decode_action i = Inr r \<and> type_string (rtype r) = ''DISCARD''"
  "i \<in> {shop_buy_offset..<shop_buy_offset + MAX_SHOP_SLOTS}
     \<Longrightarrow> \<exists>r. decode_action i = Inr r \<and> type_string (rtype r) = ''SHOP_BUY''"
  "i \<in> {sell_joker_offset..<sell_joker_offset + MAX_JOKERS}
     \<Longrightarrow> \<exists>r. decode_action i = Inr r \<and> type_string (rtype r) = ''SHOP_SELL_JOKER''"
  "i \<in> {pack_select_offset..<pack_select_offset + MAX_PACK_CHOICES}
     \<Longrightarrow> \<exists>r. decode_action i = Inr r \<and> type_string (rtype r) = ''SELECT_PACK_ITEM''"
  "i \<in> {blind_select_offset..<blind_select_offset + 3}
     \<Longrightarrow> \<exists>r. decode_action i = Inr r \<and> type_string (rtype r) = ''SELECT_BLIND''"
  by (simp_all add: offset_values MAX_SHOP_SLOTS_def MAX_JOKERS_def MAX_PACK_CHOICES_def
        decode_play_hand decode_discard decode_shop_buy decode_sell_joker decode_pack
        decode_blind request_def)

lemma offsets_nonneg:
  "0 \<le> play_hand_offset" "0 \<le> discard_offset" "0 \<le> shop_buy_offset"
  "0 \<le> sell_joker_offset" "0 \<le> pack_select_offset" "0 \<le> blind_select_offset"
  by (simp_all add: offset_values)

lemma mask_action_marked:
  assumes "mask_action hs a msk = Inr msk'"
  shows "\<exists>S. marked msk S msk'
           \<and> (\<forall>i \<in> S. \<exists>r. decode_action i = Inr r
                             \<and> type_string (rtype r) = type_string (ltype a))"
proof -
  let ?t = "type_string (ltype a)"
  consider
      (reroll) "?t = ''SHOP_REROLL''" | (shop_end) "?t = ''SHOP_END''"
    | (skip_blind) "?t = ''SKIP_BLIND''" | (skip_pack) "?t = ''SKIP_PACK''"
    | (sort) "?t = ''SORT_HAND''" | (play) "?t = ''PLAY_HAND''" | (discard) "?t = ''DISCARD''"
    | (buy) "?t = ''SHOP_BUY''" | (sell) "?t = ''SHOP_SELL_JOKER''"
    | (pack) "?t = ''SELECT_PACK_ITEM''" | (blind) "?t = ''SELECT_BLIND''"
    | (other) "?t \<noteq> ''SHOP_REROLL''" "?t \<noteq> ''SHOP_END''" "?t \<noteq> ''SKIP_BLIND''"
        "?t \<noteq> ''SKIP_PACK''" "?t \<noteq> ''SORT_HAND''" "?t \<noteq> ''PLAY_HAND''" "?t \<noteq> ''DISCARD''"
        "?t \<noteq> ''SHOP_BUY''" "?t \<noteq> ''SHOP_SELL_JOKER''" "?t \<noteq> ''SELECT_PACK_ITEM''"
        "?t \<noteq> ''SELECT_BLIND''"
    by blast
  then show ?thesis
  proof cases
    case reroll
    with assms have "mark_simple ''SHOP_REROLL'' msk = Inr msk'"
      by (simp add: mask_action_def)
    from mark_simple_marked [OF this simple_actions_values(1)]
    have "marked msk {0} msk'" by simp
    with reroll decode_type_simple(1) show ?thesis by fastforce
  next
    case shop_end
    with assms have "mark_simple ''SHOP_END'' msk = Inr msk'"
      by (simp add: mask_action_def)
    from mark_simple_marked [OF this simple_actions_values(2)]
    have "marked msk {1} msk'" by simp
    with shop_end decode_type_simple(2) show ?thesis by fastforce
  next
    case skip_blind
    with assms have "mark_simple ''SKIP_BLIND'' msk = Inr msk'"
      by (simp add: mask_action_def)
    from mark_simple_marked [OF this simple_actions_values(3)]
    have "marked msk {2} msk'" by simp
    with skip_blind decode_type_simple(3) show ?thesis by fastforce
  next
    case skip_pack
    with assms have "mark_simple ''SKIP_PACK'' msk = Inr msk'"
      by (simp add: mask_action_def)
    from mark_simple_marked [OF this simple_actions_values(4)]
    have "marked msk {3} msk'" by simp
    with skip_pack decode_type_simple(4) show ?thesis by fastforce
  next
    case sort
    with assms obtain msk1 where
      m1: "mark_simple ''SORT_HAND_RANK'' msk = Inr msk1" and
      m2: "mark_simple ''SORT_HAND_SUIT'' msk1 = Inr msk'"
      by (auto simp: mask_action_def elim!: seqE)
    from mark_simple_marked [OF m1 simple_actions_values(5)]
      mark_simple_marked [OF m2 simple_actions_values(6)]
    have "marked msk ({4} \<union> {5}) msk'" by (intro marked_trans) simp_all
    with sort decode_type_simple(5,6) show ?thesis by fastforce
  next
    case play
    with assms have "mark_selection_action play_hand_offset (lparams a) hs msk = Inr msk'"
      by (simp add: mask_action_def)
    from mark_selection_action_region [OF this offsets_nonneg(1)] play decode_type_region(1)
    show ?thesis by (metis subsetD)
  next
    case discard
    with assms have "mark_selection_action discard_offset (lparams a) hs msk = Inr msk'"
      by (simp add: mask_action_def)
    from mark_selection_action_region [OF this offsets_nonneg(2)] discard decode_type_region(2)
    show ?thesis by (metis subsetD)
  next
    case buy
    with assms have
      "mark_slot shop_buy_offset MAX_SHOP_SLOTS (slot (lparams a)) msk = Inr msk'"
      by (simp add: mask_action_def)
    from mark_slot_region [OF this offsets_nonneg(3)] buy decode_type_region(3)
    show ?thesis by (metis subsetD)
  next
    case sell
    with assms have
      "mark_slot sell_joker_offset MAX_JOKERS (joker_index (lparams a)) msk = Inr msk'"
      by (simp add: mask_action_def)
    from mark_slot_region [OF this offsets_nonneg(4)] sell decode_type_region(4)
    show ?thesis by (metis subsetD)
  next
    case pack
    with assms have
      "mark_slot pack_select_offset MAX_PACK_CHOICES (choice_index (lparams a)) msk = Inr msk'"
      by (simp add: mask_action_def)
    from mark_slot_region [OF this offsets_nonneg(5)] pack decode_type_region(5)
    show ?thesis by (metis subsetD)
  next
    case blind
    with assms obtain msk1 msk2 where
      m1: "set_true msk (blind_select_offset + 0) = Inr msk1" and
      m2: "set_true msk1 (blind_select_offset + 1) = Inr msk2" and
      m3: "set_true msk2 (blind_select_offset + 2) = Inr msk'"
      by (auto simp: mask_action_def elim!: seqE)
    have "marked msk ({blind_select_offset + 0} \<union> {blind_select_offset + 1}
            \<union> {blind_select_offset + 2}) msk'"
      using set_true_marked [OF m1] set_true_marked [OF m2] set_true_marked [OF m3]
      by (intro marked_trans) (simp_all add: offset_values)
    moreover have "{blind_select_offset + 0} \<union> {blind_select_offset + 1}
            \<union> {blind_select_offset + 2} \<subseteq> {blind_select_offset..<blind_select_offset + 3}"
      by simp
    ultimately show ?thesis using blind decode_type_region(6) by (metis subsetD)
  next
    case other
    with assms have "msk' = msk" by (simp add: mask_action_def)
    then show ?thesis using marked_refl by blast
  qed
qed

lemma mask_loop_marked:
  assumes "mask_loop hs acts msk = Inr msk'"
  shows "\<exists>S. marked msk S msk'
           \<and> (\<forall>i \<in> S. \<exists>a \<in> set acts. \<exists>r. decode_action i = Inr r
                             \<and> type_string (rtype r) = type_string (ltype a))"
  using assms
proof (induction acts arbitrary: msk)
  case Nil
  then have "msk' = msk" by simp
  then show ?case using marked_refl by fastforce
next
  case (Cons a rest)
  from Cons.prems obtain msk1 where
    a: "mask_action hs a msk = Inr msk1" and r: "mask_loop hs rest msk1 = Inr msk'"
    by (auto elim!: seqE)
  from mask_action_marked [OF a] obtain S where
    S: "marked msk S msk1"
       "\<forall>i \<in> S. \<exists>r. decode_action i = Inr r \<and> type_string (rtype r) = type_string (ltype a)"
    by blast
  from Cons.IH [OF r] obtain T where
    T: "marked msk1 T msk'"
       "\<forall>i \<in> T. \<exists>a \<in> set rest. \<exists>r. decode_action i = Inr r
                             \<and> type_string (rtype r) = type_string (ltype a)"
    by blast
  from S(1) T(1) have "marked msk (S \<union> T) msk'" by (rule marked_trans)
  moreover from S(2) T(2) have
    "\<forall>i \<in> S \<union> T. \<exists>a' \<in> set (a # rest). \<exists>r. decode_action i = Inr r
                             \<and> type_string (rtype r) = type_string (ltype a')"
    by auto
  ultimately show ?case by blast
qed

lemma blind_only_mask:
  "get_legal_action_mask blind_only hs
     = Inr ((replicate (nat action_space_size) False)[2074 := True, 2075 := True, 2076 := True])"
  by (simp add: get_legal_action_mask_def blind_only_def mask_action_def seq_def set_true_def
        offset_values)

lemma combinations_three:
  "combinations [a, b, c] (Suc 0) = [[a], [b], [c]]"
  "combinations [a, b, c] 2 = [[a, b], [a, c], [b, c]]"
  by (simp_all add: eval_nat_numeral)

lemma play_three_mask:
  "get_legal_action_mask play_three hs
     = Inr ((replicate (nat action_space_size) False)
              [11 := True, 12 := True, 14 := True, 13 := True, 15 := True, 16 := True])"
  by (simp add: get_legal_action_mask_def play_three_def no_params_def mask_action_def
        mark_selection_action_def mark_card_selections_def dict_get_def seq_def
        upto_rec1 combinations_three card_indices_to_bitmap_def MAX_HAND_SIZE_def
        set_true_def offset_values)

lemma play_three_true_entries:
  "{j. j < length ((replicate (nat action_space_size) False)
              [11 := True, 12 := True, 14 := True, 13 := True, 15 := True, 16 := True])
       \<and> ((replicate (nat action_space_size) False)
              [11 := True, 12 := True, 14 := True, 13 := True, 15 := True, 16 := True]) ! j}
   = {11, 12, 13, 14, 15, 16}"
  by (auto simp: nth_list_update offset_values)

lemma play_three_count:
  "length (filter id ((replicate (nat action_space_size) False)
              [11 := True, 12 := True, 14 := True, 13 := True, 15 := True, 16 := True])) = 6"
  unfolding length_filter_conv_card id_apply play_three_true_entries by simp

lemma combinations_map:
  "combinations (map f xs) k = map (map f) (combinations xs k)"
  by (induction xs k rule: combinations.induct) simp_all

lemma set_combinations:
  "set (combinations xs k) = {c. subseq c xs \<and> length c = k}"
proof (induction xs k rule: combinations.induct)
  case (1 xs)
  then show ?case by auto
next
  case (2 r)
  then show ?case by auto
next
  case (3 x xs r)
  show ?case
  proof (rule set_eqI)
    fix c
    show "c \<in> set (combinations (x # xs) (Suc r)) \<longleftrightarrow> c \<in> {c. subseq c (x # xs) \<and> length c = Suc r}"
    proof (cases c)
      case Nil
      then show ?thesis using 3 by auto
    next
      case (Cons y ys)
      then show ?thesis using 3 by (auto simp: subseq_Cons2_iff dest: subseq_Cons')
    qed
  qed
qed

lemma bitmap_inj:
  assumes "0 \<le> b" "b < 1024" "0 \<le> b'" "b' < 1024"
    and "set (bitmap_to_card_indices b) = set (bitmap_to_card_indices b')"
  shows "b = b'"
proof (rule bit_eqI)
  fix n
  have iff: "int n + 1 \<in> set (bitmap_to_card_indices c) \<longleftrightarrow> n < 10 \<and> bit c n" for c
    unfolding bit_indices by auto
  show "bit b n \<longleftrightarrow> bit b' n"
    using iff [of b] iff [of b'] assms(5)
      bits_below_1024 [OF assms(1,2), of n] bits_below_1024 [OF assms(3,4), of n]
    by blast
qed

lemma selection_bitmaps:
  assumes "distinct A" "set A \<subseteq> {1..10}" "0 \<le> b" "b < 1024"
    and "\<forall>sz \<in> {lo..min hi (int (length A))}. 0 \<le> sz"
  shows "(\<exists>sz \<in> {lo..min hi (int (length A))}.
            \<exists>c \<in> set (combinations (map PInt A) (nat sz)).
               card_indices_to_bitmap (PList c) = Inr b)
         \<longleftrightarrow> set (bitmap_to_card_indices b) \<subseteq> set A
             \<and> lo \<le> int (card (set (bitmap_to_card_indices b)))
             \<and> int (card (set (bitmap_to_card_indices b))) \<le> hi"
    (is "?L \<longleftrightarrow> ?R")
proof
  assume ?L
  then obtain sz c where
    sz: "lo \<le> sz" "sz \<le> min hi (int (length A))" and
    c: "c \<in> set (combinations (map PInt A) (nat sz))" and
    b: "card_indices_to_bitmap (PList c) = Inr b"
    by auto
  from sz assms(5) have nonneg: "0 \<le> sz" by simp
  from c obtain c' where c': "c = map PInt c'" "subseq c' A" "length c' = nat sz"
    by (auto simp: combinations_map set_combinations)
  from c'(2) assms(1) have dist: "distinct c'"
    using subseqs_distinctD [of c' A] by simp
  from c'(2) have sub: "set c' \<subseteq> set A"
    using list_emb_set [of "(=)" c' A] by auto
  with assms(2) have "set c' \<subseteq> {1..10}" by simp
  from positions_of_bitmap [OF this] obtain b' where
    b': "card_indices_to_bitmap (PList (map PInt c')) = Inr b'"
        "set (bitmap_to_card_indices b') = set c'"
    by blast
  from b b'(1) c'(1) have "b' = b" by simp
  with b'(2) have eq: "set (bitmap_to_card_indices b) = set c'" by simp
  have "int (card (set c')) = sz"
    using dist c'(3) nonneg by (simp add: distinct_card)
  with eq sub sz show ?R by simp
next
  assume R: ?R
  let ?T = "set (bitmap_to_card_indices b)"
  let ?c = "filter (\<lambda>x. x \<in> ?T) A"
  let ?sz = "int (card ?T)"
  from R have T: "?T \<subseteq> set A" by simp
  then have setc: "set ?c = ?T" by auto
  have distc: "distinct ?c" using assms(1) by simp
  from setc distc have lenc: "length ?c = card ?T"
    by (metis distinct_card)
  have "length ?c \<le> length A" by (rule length_filter_le)
  with lenc have "?sz \<le> int (length A)" by simp
  with R have range: "?sz \<in> {lo..min hi (int (length A))}" by simp
  have "subseq ?c A" by simp
  with lenc have "?c \<in> set (combinations A (nat ?sz))"
    by (simp add: set_combinations)
  then have mem: "map PInt ?c \<in> set (combinations (map PInt A) (nat ?sz))"
    by (simp add: combinations_map)
  from T assms(2) have "set ?c \<subseteq> {1..10}" using setc by simp
  from positions_of_bitmap [OF this] obtain b' where
    b': "card_indices_to_bitmap (PList (map PInt ?c)) = Inr b'" "0 \<le> b'" "b' < 1024"
        "set (bitmap_to_card_indices b') = set ?c"
    by blast
  from b'(4) setc have "set (bitmap_to_card_indices b') = set (bitmap_to_card_indices b)"
    by simp
  from bitmap_inj [OF b'(2,3) assms(3,4) this] have "b' = b" .
  with b'(1) have "card_indices_to_bitmap (PList (map PInt ?c)) = Inr b" by simp
  with range mem show ?L by blast
qed

lemma mask_action_play_exact:
  assumes "mask_action hs a msk = Inr msk'" "play_hand_entry a hs A m M"
    and "distinct A" "set A \<subseteq> {1..10}"
  shows "marked msk
           {play_hand_offset + b | b. 0 \<le> b \<and> b < 1024
              \<and> set (bitmap_to_card_indices b) \<subseteq> set A
              \<and> m \<le> int (card (set (bitmap_to_card_indices b)))
              \<and> int (card (set (bitmap_to_card_indices b))) \<le> M} msk'"
proof -
  from assms(2) obtain ci where
    t: "type_string (ltype a) = ''PLAY_HAND''" and
    ci: "card_indices (lparams a) = Some ci" "ci \<noteq> Map.empty" and
    av: "dict_get ci ''available'' (PList (map PInt [1..hs])) = PList (map PInt A)" and
    lo: "dict_get ci ''min_select'' (PInt 1) = PInt m" and
    hi: "dict_get ci ''max_select'' (PInt 5) = PInt M"
    by (auto simp: play_hand_entry_def)
  from assms(1) t ci have "mark_card_selections play_hand_offset ci hs msk = Inr msk'"
    by (simp add: mask_action_def mark_selection_action_def)
  from mark_card_selections_exact [OF this offsets_nonneg(1) av lo hi] have
    mk: "marked msk
           {play_hand_offset + b | b. \<exists>sz \<in> {m..min M (int (length A))}.
                           \<exists>c \<in> set (combinations (map PInt A) (nat sz)).
                             card_indices_to_bitmap (PList c) = Inr b} msk'"
    and nonneg: "\<forall>sz \<in> {m..min M (int (length A))}. 0 \<le> sz"
    by simp_all
  have "(\<exists>sz \<in> {m..min M (int (length A))}.
            \<exists>c \<in> set (combinations (map PInt A) (nat sz)).
               card_indices_to_bitmap (PList c) = Inr b)
        \<longleftrightarrow> 0 \<le> b \<and> b < 1024 \<and> set (bitmap_to_card_indices b) \<subseteq> set A
             \<and> m \<le> int (card (set (bitmap_to_card_indices b)))
             \<and> int (card (set (bitmap_to_card_indices b))) \<le> M" for b
  proof (cases "0 \<le> b \<and> b < 1024")
    case True
    then show ?thesis
      using selection_bitmaps [OF assms(3,4) _ _ nonneg, of b] by simp
  next
    case False
    then show ?thesis using bitmap_range [of _ b] by blast
  qed
  then have "{play_hand_offset + b | b. \<exists>sz \<in> {m..min M (int (length A))}.
                           \<exists>c \<in> set (combinations (map PInt A) (nat sz)).
                             card_indices_to_bitmap (PList c) = Inr b}
      = {play_hand_offset + b | b. 0 \<le> b \<and> b < 1024
              \<and> set (bitmap_to_card_indices b) \<subseteq> set A
              \<and> m \<le> int (card (set (bitmap_to_card_indices b)))
              \<and> int (card (set (bitmap_to_card_indices b))) \<le> M}"
    by simp
  with mk show ?thesis by simp
qed

lemma mask_action_other_kind:
  assumes "mask_action hs a msk = Inr msk'" "type_string (ltype a) \<noteq> ''PLAY_HAND''"
    and "0 \<le> b" "b < 1024" "nat (play_hand_offset + b) < length msk"
  shows "length msk' = length msk
         \<and> msk' ! nat (play_hand_offset + b) = msk ! nat (play_hand_offset + b)"
proof -
  from mask_action_marked [OF assms(1)] obtain S where
    S: "marked msk S msk'"
       "\<forall>i \<in> S. \<exists>r. decode_action i = Inr r \<and> type_string (rtype r) = type_string (ltype a)"
    by blast
  have "play_hand_offset + b \<in> {play_hand_offset..<play_hand_offset + 1024}"
    using assms(3,4) by simp
  from decode_type_region(1) [OF this] S(2) assms(2) have "play_hand_offset + b \<notin> S"
    by fastforce
  moreover have "int (nat (play_hand_offset + b)) = play_hand_offset + b"
    using assms(3) offsets_nonneg(1) by simp
  ultimately show ?thesis using S(1) assms(5) by (simp add: marked_def)
qed

lemma mask_loop_play:
  assumes "mask_loop hs acts msk = Inr msk'"
    and "\<forall>a' \<in> set acts. type_string (ltype a') = ''PLAY_HAND'' \<longrightarrow> a' = a"
    and "play_hand_entry a hs A m M" "distinct A" "set A \<subseteq> {1..10}"
    and "0 \<le> b" "b < 1024" "nat (play_hand_offset + b) < length msk"
  shows "length msk' = length msk
         \<and> (msk' ! nat (play_hand_offset + b) \<longleftrightarrow>
              msk ! nat (play_hand_offset + b)
              \<or> (a \<in> set acts \<and> set (bitmap_to_card_indices b) \<subseteq> set A
                  \<and> m \<le> int (card (set (bitmap_to_card_indices b)))
                  \<and> int (card (set (bitmap_to_card_indices b))) \<le> M))"
  using assms(1,2,8)
proof (induction acts arbitrary: msk)
  case Nil
  then show ?case by simp
next
  case (Cons a' rest)
  let ?j = "nat (play_hand_offset + b)"
  let ?sel = "set (bitmap_to_card_indices b) \<subseteq> set A
                  \<and> m \<le> int (card (set (bitmap_to_card_indices b)))
                  \<and> int (card (set (bitmap_to_card_indices b))) \<le> M"
  from Cons.prems(1) obtain msk1 where
    a': "mask_action hs a' msk = Inr msk1" and r: "mask_loop hs rest msk1 = Inr msk'"
    by (auto elim!: seqE)
  have j: "int ?j = play_hand_offset + b" using assms(6) offsets_nonneg(1) by simp
  have step: "length msk1 = length msk \<and> (msk1 ! ?j \<longleftrightarrow> msk ! ?j \<or> (a' = a \<and> ?sel))"
  proof (cases "type_string (ltype a') = ''PLAY_HAND''")
    case True
    with Cons.prems(2) have eq: "a' = a" by simp
    from mask_action_play_exact [OF a' [unfolded eq] assms(3,4,5)] Cons.prems(3) j assms(6,7)
    show ?thesis unfolding eq marked_def by auto
  next
    case False
    with assms(3) have "a' \<noteq> a" by (auto simp: play_hand_entry_def)
    with mask_action_other_kind [OF a' False assms(6,7) Cons.prems(3)]
    show ?thesis by simp
  qed
  then have len: "?j < length msk1" using Cons.prems(3) by simp
  from Cons.prems(2) have "\<forall>a' \<in> set rest. type_string (ltype a') = ''PLAY_HAND'' \<longrightarrow> a' = a"
    by simp
  from Cons.IH [OF r this len] step show ?case by auto
qed

lemma play_hand_mask_general:
  assumes "get_legal_action_mask legal hs = Inr msk"
    and "a \<in> set (actions legal)" and "play_hand_entry a hs A m M"
    and "\<forall>a' \<in> set (actions legal). type_string (ltype a') = ''PLAY_HAND'' \<longrightarrow> a' = a"
    and "distinct A" "set A \<subseteq> {1..10}"
    and "0 \<le> b" "b < 1024"
  shows "msk ! nat (play_hand_offset + b) \<longleftrightarrow>
            set (bitmap_to_card_indices b) \<subseteq> set A
            \<and> m \<le> int (card (set (bitmap_to_card_indices b)))
            \<and> int (card (set (bitmap_to_card_indices b))) \<le> M"
proof -
  let ?init = "replicate (nat action_space_size) False"
  let ?j = "nat (play_hand_offset + b)"
  from assms(1) have loop: "mask_loop hs (actions legal) ?init = Inr msk"
    by (simp add: get_legal_action_mask_def)
  have "play_hand_offset + b < action_space_size"
    using assms(8) unfolding offset_values by linarith
  moreover have "0 \<le> play_hand_offset + b"
    using assms(7) unfolding offset_values by linarith
  ultimately have j: "?j < length ?init" by simp
  then have "\<not> ?init ! ?j" by (metis nth_replicate length_replicate)
  with mask_loop_play [OF loop assms(4,3,5,6,7,8) j] assms(2)
  show ?thesis by blast
qed

lemma play_three_region:
  assumes "j < length ((replicate (nat action_space_size) False)
              [11 := True, 12 := True, 14 := True, 13 := True, 15 := True, 16 := True])"
    and "((replicate (nat action_space_size) False)
              [11 := True, 12 := True, 14 := True, 13 := True, 15 := True, 16 := True]) ! j"
  shows "nat play_hand_offset \<le> j \<and> j < nat (play_hand_offset + 1024)"
proof -
  from assms have "j \<in> {j. j < length ((replicate (nat action_space_size) False)
              [11 := True, 12 := True, 14 := True, 13 := True, 15 := True, 16 := True])
       \<and> ((replicate (nat action_space_size) False)
              [11 := True, 12 := True, 14 := True, 13 := True, 15 := True, 16 := True]) ! j}"
    by blast
  then have "j \<in> {11, 12, 13, 14, 15, 16}"
    by (simp only: play_three_true_entries)
  then have "11 \<le> j \<and> j \<le> 16" by auto
  then show ?thesis by (simp add: offset_values)
qed

lemma play_three_example:
  "\<exists>ex. (\<forall>hs'. get_legal_action_mask play_three hs' = Inr ex)
         \<and> length (filter id ex) = 6
         \<and> (\<forall>j < length ex. ex ! j \<longrightarrow>
               nat play_hand_offset \<le> j \<and> j < nat (play_hand_offset + 1024))"
  using play_three_mask play_three_count play_three_region by blast

lemma combinations_two:
  "combinations [a, b] (Suc 0) = [[a], [b]]"
  by simp

lemma play_beyond_ten_mask:
  "get_legal_action_mask play_beyond_ten hs
     = Inr ((replicate (nat action_space_size) False)[11 := True, 10 := True])"
  by (simp add: get_legal_action_mask_def play_beyond_ten_def no_params_def mask_action_def
        mark_selection_action_def mark_card_selections_def dict_get_def seq_def
        upto_rec1 combinations_two card_indices_to_bitmap_def MAX_HAND_SIZE_def
        set_true_def offset_values)

lemma empty_bitmap: "bitmap_to_card_indices 0 = []"
  by (simp add: bitmap_to_card_indices_def)

lemma play_hand_mask_general_example:
  "((replicate (nat action_space_size) False)
      [11 := True, 12 := True, 14 := True, 13 := True, 15 := True, 16 := True])
     ! nat (play_hand_offset + 3)
   \<longleftrightarrow> set (bitmap_to_card_indices 3) \<subseteq> set [1, 2, 3]
        \<and> 1 \<le> int (card (set (bitmap_to_card_indices 3)))
        \<and> int (card (set (bitmap_to_card_indices 3))) \<le> 2"
proof -
  let ?a = "\<lparr>ltype = Enum PLAY_HAND, description = ''Play cards'',
          lparams = no_params
            \<lparr>card_indices :=
               Some [''available'' \<mapsto> PList [PInt 1, PInt 2, PInt 3],
                     ''min_select'' \<mapsto> PInt 1,
                     ''max_select'' \<mapsto> PInt 2]\<rparr>\<rparr>"
  have mem: "?a \<in> set (actions play_three)" by (simp add: play_three_def)
  have entry: "play_hand_entry ?a 8 [1, 2, 3] 1 2"
    by (simp add: play_hand_entry_def no_params_def dict_get_def)
  have only: "\<forall>a' \<in> set (actions play_three). type_string (ltype a') = ''PLAY_HAND'' \<longrightarrow> a' = ?a"
    by (simp add: play_three_def)
  have wf: "distinct [1, 2, 3 :: int]" "set [1, 2, 3 :: int] \<subseteq> {1..10}" by simp_all
  have b: "(0::int) \<le> 3" "(3::int) < 1024" by simp_all
  from play_hand_mask_general [OF play_three_mask mem entry only wf b] show ?thesis .
qed

lemma play_beyond_ten_entry:
  "play_hand_entry (hd (actions play_beyond_ten)) hs [1, 11] 1 1"
  by (simp add: play_hand_entry_def play_beyond_ten_def no_params_def dict_get_def)

section \<open>Claims about the legality mask\<close>

text \<open>
  Claim C7 fails for the PLAY\_HAND entry with the available positions 1 and 11 and exactly
  one card to select: the mask is true at the first index of the PLAY\_HAND region, whose
  bitmap 0 is the empty selection, of size 0 and not between 1 and 1.  The combination that
  holds position 11 alone is chosen with size 1, and \<open>card_indices_to_bitmap\<close> then drops the
  position.  (For a single entry with distinct available positions within 1 to 10 the mask
  is true exactly at the subsets of the available positions of a size between \<^verbatim>\<open>min_select\<close>
  and \<^verbatim>\<open>max_select\<close>, and the example of the claim has its 6 entries, see
  \<open>play_hand_mask_general\<close> and \<open>play_three_example\<close>.)
\<close>

theorem play_hand_mask_marks_empty_selection:
  "play_hand_entry (hd (actions play_beyond_ten)) 11 [1, 11] 1 1
   \<and> get_legal_action_mask play_beyond_ten 11
     = Inr ((replicate (nat action_space_size) False)[11 := True, 10 := True])
   \<and> ((replicate (nat action_space_size) False)[11 := True, 10 := True])
        ! nat (play_hand_offset + 0)
   \<and> set (bitmap_to_card_indices 0) \<subseteq> set [1, 11]
   \<and> card (set (bitmap_to_card_indices 0)) = 0
   \<and> \<not> 1 \<le> int (card (set (bitmap_to_card_indices 0)))"
  by (simp add: play_beyond_ten_entry play_beyond_ten_mask empty_bitmap offset_values)

text \<open>
  Claim C10.  Every index at which the mask of a legal-action set is true lies in
  \<open>[0, get_action_space_size)\<close>, and \<open>decode_action\<close> of the index returns an action whose type
  is the type of a legal action of the set.
\<close>

theorem mask_decode_compatible:
  assumes "get_legal_action_mask legal hs = Inr msk" "i < length msk" "msk ! i"
  shows "length msk = nat get_action_space_size
         \<and> 0 \<le> int i \<and> int i < get_action_space_size
         \<and> (\<exists>r. decode_action (int i) = Inr r
                \<and> (\<exists>a \<in> set (actions legal). type_string (rtype r) = type_string (ltype a)))"
proof -
  let ?init = "replicate (nat action_space_size) False"
  from assms(1) have "mask_loop hs (actions legal) ?init = Inr msk"
    by (simp add: get_legal_action_mask_def)
  from mask_loop_marked [OF this] obtain S where
    S: "marked ?init S msk"
       "\<forall>i \<in> S. \<exists>a \<in> set (actions legal). \<exists>r. decode_action i = Inr r
                             \<and> type_string (rtype r) = type_string (ltype a)"
    by blast
  from S(1) have len: "length msk = nat action_space_size"
    by (simp add: marked_def)
  with assms(2) have range: "int i < action_space_size" by linarith
  from S(1) assms(2,3) len have "int i \<in> S" by (simp add: marked_def)
  with S(2) have "\<exists>r. decode_action (int i) = Inr r
                \<and> (\<exists>a \<in> set (actions legal). type_string (rtype r) = type_string (ltype a))"
    by blast
  with len range show ?thesis by (simp add: get_action_space_size_def)
qed

theorem mask_decode_compatible_witness:
  "\<exists>r. decode_action 2075 = Inr r
       \<and> (\<exists>a \<in> set (actions blind_only). type_string (rtype r) = type_string (ltype a))"
proof -
  let ?msk = "(replicate (nat action_space_size) False)[2074 := True, 2075 := True, 2076 := True]"
  have "2075 < length ?msk" "?msk ! 2075" by (simp_all add: offset_values)
  from mask_decode_compatible [OF blind_only_mask this] show ?thesis by simp
qed

end
